theory Spec2Isabelle
  imports Main "HOL-Library.AList" "HOL-Library.Product_Lexorder"
begin

section \<open>Python values used by \<open>typhon.spareice.datasets\<close>\<close>

text \<open>
  The exceptions that the modelled part of \<open>datasets.py\<close> can raise. A function that may
  raise returns \<open>error + 'a\<close>, with \<open>Inl\<close> for the exception.
\<close>

datatype error =
    ValueError
  | TypeError
  | IndexError
  | KeyError
  | OverflowError
  | NoFilesError

subsection \<open>Decimal text\<close>

text \<open>
  Strings are \<open>char list\<close>; only ASCII decimal digits count as digits (Python's \<open>\d\<close> and
  \<open>int\<close> also accept other Unicode decimal digits, which a byte string cannot hold).
\<close>

definition is_digit :: "char \<Rightarrow> bool" where
  "is_digit c = (48 \<le> (of_char c :: int) \<and> (of_char c :: int) \<le> 57)"

definition digit_val :: "char \<Rightarrow> int" where
  "digit_val c = of_char c - 48"

definition digit_char :: "int \<Rightarrow> char" where
  "digit_char i = char_of (48 + i)"

text \<open>The decimal digits of a non-negative integer, and \<open>str(i)\<close>.\<close>

function str_digits :: "int \<Rightarrow> string" where
  "str_digits i =
     (if i < 10 then [digit_char i] else str_digits (i div 10) @ [digit_char (i mod 10)])"
  by pat_completeness auto
termination
  by (relation "measure nat") auto

definition str_int :: "int \<Rightarrow> string" where
  "str_int i = (if i < 0 then CHR ''-'' # str_digits (- i) else str_digits i)"

text \<open>
  \<open>"{:0wd}".format(i)\<close>: sign-aware zero padding to width \<open>w\<close>.
\<close>

definition fmt_d :: "nat \<Rightarrow> int \<Rightarrow> string" where
  "fmt_d w i =
     (if i < 0
      then CHR ''-'' # replicate (w - 1 - length (str_digits (- i))) CHR ''0'' @ str_digits (- i)
      else replicate (w - length (str_digits i)) CHR ''0'' @ str_digits i)"

text \<open>\<open>s[-2:]\<close>: the last two characters (all of \<open>s\<close> when it is shorter).\<close>

definition last2 :: "string \<Rightarrow> string" where
  "last2 s = drop (length s - 2) s"

definition dec_val :: "string \<Rightarrow> int" where
  "dec_val s = foldl (\<lambda>acc c. acc * 10 + digit_val c) 0 s"

text \<open>
  \<open>int(s)\<close> on the strings that reach it here: a group matched by \<open>\d{n}\<close>, or one
  character of a match. A non-empty string of digits is its decimal value; for a single
  character anything else raises \<open>ValueError\<close>. (Python's \<open>int\<close> also strips blanks and
  accepts a sign and underscores in longer strings; no such string is passed to it by
  the modelled code.)
\<close>

definition py_int :: "string \<Rightarrow> error + int" where
  "py_int s = (if s \<noteq> [] \<and> list_all is_digit s then Inr (dec_val s) else Inl ValueError)"

subsection \<open>\<open>datetime\<close> and \<open>timedelta\<close>\<close>

record datetime =
  dt_year :: int
  dt_month :: int
  dt_day :: int
  dt_hour :: int
  dt_minute :: int
  dt_second :: int
  dt_microsecond :: int

definition is_leap :: "int \<Rightarrow> bool" where
  "is_leap y = (y mod 4 = 0 \<and> (y mod 100 \<noteq> 0 \<or> y mod 400 = 0))"

definition days_in_month :: "int \<Rightarrow> int \<Rightarrow> int" where
  "days_in_month y m =
     (if m = 2 then (if is_leap y then 29 else 28)
      else if m = 4 \<or> m = 6 \<or> m = 9 \<or> m = 11 then 30 else 31)"

text \<open>The number of days of year \<open>y\<close> before the first day of month \<open>m\<close>.\<close>

definition days_before_month :: "int \<Rightarrow> int \<Rightarrow> int" where
  "days_before_month y m = sum_list (map (days_in_month y) [1 .. m - 1])"

definition valid_date :: "int \<Rightarrow> int \<Rightarrow> int \<Rightarrow> bool" where
  "valid_date y m d = (1 \<le> y \<and> y \<le> 9999 \<and> 1 \<le> m \<and> m \<le> 12 \<and> 1 \<le> d \<and> d \<le> days_in_month y m)"

definition valid_time :: "int \<Rightarrow> int \<Rightarrow> int \<Rightarrow> int \<Rightarrow> bool" where
  "valid_time h mi s us =
     (0 \<le> h \<and> h < 24 \<and> 0 \<le> mi \<and> mi < 60 \<and> 0 \<le> s \<and> s < 60 \<and> 0 \<le> us \<and> us < 1000000)"

definition valid_datetime :: "datetime \<Rightarrow> bool" where
  "valid_datetime d =
     (valid_date (dt_year d) (dt_month d) (dt_day d) \<and>
      valid_time (dt_hour d) (dt_minute d) (dt_second d) (dt_microsecond d))"

text \<open>
  \<open>datetime(year, month, day, hour, minute, second, microsecond)\<close>: a field out of range
  raises \<open>ValueError\<close>.
\<close>

definition datetime_new :: "int \<Rightarrow> int \<Rightarrow> int \<Rightarrow> int \<Rightarrow> int \<Rightarrow> int \<Rightarrow> int \<Rightarrow> error + datetime" where
  "datetime_new y m d h mi s us =
     (if valid_date y m d \<and> valid_time h mi s us
      then Inr \<lparr>dt_year = y, dt_month = m, dt_day = d, dt_hour = h, dt_minute = mi,
                dt_second = s, dt_microsecond = us\<rparr>
      else Inl ValueError)"

text \<open>
  Naive datetimes compare field by field, the year first: the order of \<open>dt_key\<close>, which
  is the lexicographic order on tuples.
\<close>

definition dt_key :: "datetime \<Rightarrow> int \<times> int \<times> int \<times> int \<times> int \<times> int \<times> int" where
  "dt_key d = (dt_year d, dt_month d, dt_day d, dt_hour d, dt_minute d, dt_second d,
               dt_microsecond d)"

definition dt_less :: "datetime \<Rightarrow> datetime \<Rightarrow> bool" where
  "dt_less a b = (dt_key a < dt_key b)"

definition dt_le :: "datetime \<Rightarrow> datetime \<Rightarrow> bool" where
  "dt_le a b = (dt_key a \<le> dt_key b)"

text \<open>
  A \<open>timedelta\<close> is a number of microseconds (Python normalises days, seconds and
  microseconds to one such count).
\<close>

type_synonym timedelta = int

definition timedelta_days :: "int \<Rightarrow> timedelta" where
  "timedelta_days n = n * 86400000000"

definition timedelta_hours :: "int \<Rightarrow> timedelta" where
  "timedelta_hours n = n * 3600000000"

definition timedelta_minutes :: "int \<Rightarrow> timedelta" where
  "timedelta_minutes n = n * 60000000"

definition timedelta_seconds :: "int \<Rightarrow> timedelta" where
  "timedelta_seconds n = n * 1000000"

definition timedelta_milliseconds :: "int \<Rightarrow> timedelta" where
  "timedelta_milliseconds n = n * 1000"

text \<open>The calendar day after and before a date \<open>(year, month, day)\<close>.\<close>

definition next_day :: "int \<times> int \<times> int \<Rightarrow> int \<times> int \<times> int" where
  "next_day ymd =
     (case ymd of (y, m, d) \<Rightarrow>
        if d < days_in_month y m then (y, m, d + 1)
        else if m < 12 then (y, m + 1, 1)
        else (y + 1, 1, 1))"

definition prev_day :: "int \<times> int \<times> int \<Rightarrow> int \<times> int \<times> int" where
  "prev_day ymd =
     (case ymd of (y, m, d) \<Rightarrow>
        if 1 < d then (y, m, d - 1)
        else if 1 < m then (y, m - 1, days_in_month y (m - 1))
        else (y - 1, 12, 31))"

definition add_days :: "int \<times> int \<times> int \<Rightarrow> int \<Rightarrow> int \<times> int \<times> int" where
  "add_days ymd n = (if 0 \<le> n then (next_day ^^ nat n) ymd else (prev_day ^^ nat (- n)) ymd)"

definition us_of_day :: "datetime \<Rightarrow> int" where
  "us_of_day d =
     ((dt_hour d * 60 + dt_minute d) * 60 + dt_second d) * 1000000 + dt_microsecond d"

text \<open>
  \<open>d + td\<close>: the time of day is advanced, whole days are carried into the date, and a
  result outside the years 1 to 9999 raises \<open>OverflowError\<close>.
\<close>

definition datetime_add :: "datetime \<Rightarrow> timedelta \<Rightarrow> error + datetime" where
  "datetime_add d td =
     (let total = us_of_day d + td;
          r = total mod 86400000000
      in case add_days (dt_year d, dt_month d, dt_day d) (total div 86400000000) of
           (y, m, dd) \<Rightarrow>
             if 1 \<le> y \<and> y \<le> 9999
             then Inr \<lparr>dt_year = y, dt_month = m, dt_day = dd,
                       dt_hour = r div 3600000000,
                       dt_minute = (r div 60000000) mod 60,
                       dt_second = (r div 1000000) mod 60,
                       dt_microsecond = r mod 1000000\<rparr>
             else Inl OverflowError)"

section \<open>Path templates and their regular expressions\<close>

text \<open>
  A path template (the \<open>files\<close> argument) is kept as the list of its tokens: \<open>PH n\<close> is
  the placeholder \<open>{n}\<close>, \<open>Star\<close> is the wildcard \<open>*\<close>, and \<open>Lit c\<close> is any other
  character. \<open>template_of\<close> reads the tokens off the template text.
\<close>

datatype token = Lit char | PH string | Star

fun tokens_from :: "string \<Rightarrow> string option \<Rightarrow> token list" where
  "tokens_from [] None = []"
| "tokens_from [] (Some acc) = map Lit (CHR ''{'' # rev acc)"
| "tokens_from (c # s) None =
     (if c = CHR ''{'' then tokens_from s (Some [])
      else if c = CHR ''*'' then Star # tokens_from s None
      else Lit c # tokens_from s None)"
| "tokens_from (c # s) (Some acc) =
     (if c = CHR ''}'' then PH (rev acc) # tokens_from s None
      else tokens_from s (Some (c # acc)))"

definition template_of :: "string \<Rightarrow> token list" where
  "template_of s = tokens_from s None"

text \<open>
  The regular expressions that the code builds are sequences of four kinds of atoms:
  a literal character, \<open>.\<close> (any character but a newline), the capturing group
  \<open>(\d{n})\<close> and the non-greedy \<open>.*?\<close>.
\<close>

datatype ratom = RChar char | RAny | RDigits nat | RLazy

text \<open>
  An entry of the class attribute \<open>Dataset.placeholder\<close>: \<open>Digits n\<close> stands for the
  text \<open>(\d{n})\<close>, and \<open>Text s\<close> for the text \<open>s\<close> itself (the entry of \<open>name\<close>).
\<close>

datatype pattern = Digits nat | Text string

type_synonym placeholder_table = "(string \<times> pattern) list"

definition placeholder :: placeholder_table where
  "placeholder =
     [(''year'', Digits 4), (''year2'', Digits 2), (''month'', Digits 2), (''day'', Digits 2),
      (''doy'', Digits 3), (''hour'', Digits 2), (''minute'', Digits 2), (''second'', Digits 2),
      (''millisecond'', Digits 3),
      (''end_year'', Digits 4), (''end_year2'', Digits 2), (''end_month'', Digits 2),
      (''end_day'', Digits 2), (''end_doy'', Digits 3), (''end_hour'', Digits 2),
      (''end_minute'', Digits 2), (''end_second'', Digits 2), (''end_millisecond'', Digits 3),
      (''name'', Text [])]"

text \<open>
  One character of regular-expression text, after \<open>replace("*", ".*?")\<close>. The model is
  exact for text whose only regular-expression operators are \<open>.\<close> and \<open>*\<close>; see
  \<open>plain_char\<close>.
\<close>

definition atom_of_char :: "char \<Rightarrow> ratom" where
  "atom_of_char c = (if c = CHR ''.'' then RAny else if c = CHR ''*'' then RLazy else RChar c)"

text \<open>
  \<open>re.compile(self.files.format(**Dataset.placeholder).replace("*", ".*?"))\<close>.
  A placeholder that the table lacks makes \<open>format\<close> raise \<open>KeyError\<close>.
\<close>

fun re_compile :: "placeholder_table \<Rightarrow> token list \<Rightarrow> error + ratom list" where
  "re_compile tab [] = Inr []"
| "re_compile tab (Lit c # ts) =
     (case re_compile tab ts of Inl e \<Rightarrow> Inl e | Inr r \<Rightarrow> Inr (atom_of_char c # r))"
| "re_compile tab (Star # ts) =
     (case re_compile tab ts of Inl e \<Rightarrow> Inl e | Inr r \<Rightarrow> Inr (RLazy # r))"
| "re_compile tab (PH n # ts) =
     (case map_of tab n of
        None \<Rightarrow> Inl KeyError
      | Some (Digits k) \<Rightarrow>
          (case re_compile tab ts of Inl e \<Rightarrow> Inl e | Inr r \<Rightarrow> Inr (RDigits k # r))
      | Some (Text s) \<Rightarrow>
          (case re_compile tab ts of Inl e \<Rightarrow> Inl e | Inr r \<Rightarrow> Inr (map atom_of_char s @ r)))"

text \<open>
  Matching at the start of a string, with the priorities of a backtracking matcher: the
  non-greedy \<open>.*?\<close> first tries to consume nothing. The result is the matched text and
  the captured groups.
\<close>

fun re_match :: "ratom list \<Rightarrow> string \<Rightarrow> (string \<times> string list) option" where
  "re_match [] s = Some ([], [])"
| "re_match (RChar c # r) s =
     (case s of
        [] \<Rightarrow> None
      | x # s' \<Rightarrow>
          if x = c then map_option (\<lambda>(m, g). (x # m, g)) (re_match r s') else None)"
| "re_match (RAny # r) s =
     (case s of
        [] \<Rightarrow> None
      | x # s' \<Rightarrow>
          if x \<noteq> CHR 0x0A then map_option (\<lambda>(m, g). (x # m, g)) (re_match r s') else None)"
| "re_match (RDigits n # r) s =
     (if n \<le> length s \<and> list_all is_digit (take n s)
      then map_option (\<lambda>(m, g). (take n s @ m, take n s # g)) (re_match r (drop n s))
      else None)"
| "re_match (RLazy # r) s =
     (case re_match r s of
        Some res \<Rightarrow> Some res
      | None \<Rightarrow>
          (case s of
             [] \<Rightarrow> None
           | x # s' \<Rightarrow>
               if x \<noteq> CHR 0x0A
               then map_option (\<lambda>(m, g). (x # m, g)) (re_match (RLazy # r) s')
               else None))"

text \<open>The leftmost match anywhere in the string.\<close>

fun re_search :: "ratom list \<Rightarrow> string \<Rightarrow> (string \<times> string list) option" where
  "re_search r [] = re_match r []"
| "re_search r (x # s) =
     (case re_match r (x # s) of Some res \<Rightarrow> Some res | None \<Rightarrow> re_search r s)"

text \<open>
  What \<open>regex.findall(filename)[0]\<close> is: with no group in the expression the matched
  text, with one group that group (a string), with more groups the tuple of all groups.
\<close>

datatype match_values = VStr string | VTuple "string list"

definition findall_first :: "ratom list \<Rightarrow> string \<Rightarrow> match_values option" where
  "findall_first r s =
     (case re_search r s of
        None \<Rightarrow> None
      | Some (m, gs) \<Rightarrow>
          Some (case gs of [] \<Rightarrow> VStr m | [g] \<Rightarrow> VStr g | _ \<Rightarrow> VTuple gs))"

text \<open>\<open>values[index]\<close>: an element of the tuple, or a one-character string of the string.\<close>

definition values_index :: "match_values \<Rightarrow> nat \<Rightarrow> error + string" where
  "values_index vs i =
     (case vs of
        VTuple gs \<Rightarrow> if i < length gs then Inr (gs ! i) else Inl IndexError
      | VStr s \<Rightarrow> if i < length s then Inr [s ! i] else Inl IndexError)"

section \<open>Dates from placeholder values\<close>

type_synonym date_args = "(string \<times> int) list"

definition startswith :: "string \<Rightarrow> string \<Rightarrow> bool" where
  "startswith s p = (take (length p) s = p)"

definition has_key :: "date_args \<Rightarrow> string \<Rightarrow> bool" where
  "has_key d k = (map_of d k \<noteq> None)"

text \<open>
  One iteration of the loop of \<open>_create_date_from_placeholders\<close>, for the placeholder
  \<open>ph\<close> and its value \<open>v = int(values[index])\<close>; \<open>prefix\<close> is the prefix after \<open>None\<close>
  has been replaced by the empty string.
\<close>

definition date_args_step ::
  "string \<Rightarrow> string option \<Rightarrow> string \<Rightarrow> int \<Rightarrow> date_args \<Rightarrow> date_args"
where
  "date_args_step prefix exclude ph v date_args =
     (if ph = prefix @ ''year2''
      then AList.update ''year'' (if v < 65 then 2000 + v else 1900 + v) date_args
      else if ph = prefix @ ''millisecond''
      then AList.update (prefix @ ''microsecond'') (v * 1000) date_args
      else if (case exclude of None \<Rightarrow> True | Some ex \<Rightarrow> \<not> startswith ph ex)
              \<and> startswith ph prefix
      then AList.update (drop (length prefix) ph) v date_args
      else date_args)"

text \<open>The loop over \<open>enumerate(placeholders)\<close>.\<close>

fun create_date_loop ::
  "string \<Rightarrow> string option \<Rightarrow> match_values \<Rightarrow> (nat \<times> string) list \<Rightarrow> date_args \<Rightarrow> error + date_args"
where
  "create_date_loop prefix exclude vs [] date_args = Inr date_args"
| "create_date_loop prefix exclude vs (ip # rest) date_args =
     (case values_index vs (fst ip) of
        Inl e \<Rightarrow> Inl e
      | Inr s \<Rightarrow>
          (case py_int s of
             Inl e \<Rightarrow> Inl e
           | Inr v \<Rightarrow>
               create_date_loop prefix exclude vs rest
                 (date_args_step prefix exclude (snd ip) v date_args)))"

text \<open>
  The day-of-year step that ends \<open>_create_date_from_placeholders\<close>:
  \<open>datetime(date_args["year"], 1, 1) + timedelta(date_args["doy"] - 1)\<close> gives the month
  and the day, and \<open>doy\<close> is deleted. The year stays as it was.
\<close>

definition doy_to_month_day :: "date_args \<Rightarrow> error + date_args" where
  "doy_to_month_day date_args =
     (case map_of date_args ''year'' of
        None \<Rightarrow> Inl KeyError
      | Some y \<Rightarrow>
          (case datetime_new y 1 1 0 0 0 0 of
             Inl e \<Rightarrow> Inl e
           | Inr jan1 \<Rightarrow>
               (case map_of date_args ''doy'' of
                  None \<Rightarrow> Inl KeyError
                | Some doy \<Rightarrow>
                    (case datetime_add jan1 (timedelta_days (doy - 1)) of
                       Inl e \<Rightarrow> Inl e
                     | Inr date \<Rightarrow>
                         Inr (AList.delete ''doy''
                               (AList.update ''day'' (dt_day date)
                                 (AList.update ''month'' (dt_month date) date_args)))))))"

definition create_date_from_placeholders ::
  "string list \<Rightarrow> match_values \<Rightarrow> string option \<Rightarrow> string option \<Rightarrow> date_args option \<Rightarrow> error + date_args"
where
  "create_date_from_placeholders placeholders vs prefix exclude dflt =
     (let prefix = (case prefix of None \<Rightarrow> [] | Some p \<Rightarrow> p);
          date_args = (case dflt of None \<Rightarrow> [] | Some d \<Rightarrow> d)
      in case create_date_loop prefix exclude vs (enumerate 0 placeholders) date_args of
           Inl e \<Rightarrow> Inl e
         | Inr date_args \<Rightarrow>
             if prefix @ ''doy'' \<in> set placeholders then doy_to_month_day date_args
             else Inr date_args)"

text \<open>
  \<open>datetime(**date_args)\<close>: a keyword that \<open>datetime\<close> does not have, or a missing year,
  month or day, raises \<open>TypeError\<close>; a value out of range raises \<open>ValueError\<close>.
\<close>

definition datetime_fields :: "string list" where
  "datetime_fields = [''year'', ''month'', ''day'', ''hour'', ''minute'', ''second'', ''microsecond'']"

definition arg_or_zero :: "date_args \<Rightarrow> string \<Rightarrow> int" where
  "arg_or_zero d k = (case map_of d k of None \<Rightarrow> 0 | Some v \<Rightarrow> v)"

definition datetime_kw :: "date_args \<Rightarrow> error + datetime" where
  "datetime_kw d =
     (if \<not> list_all (\<lambda>kv. fst kv \<in> set datetime_fields) d then Inl TypeError
      else
        (case (map_of d ''year'', map_of d ''month'', map_of d ''day'') of
           (Some y, Some m, Some dd) \<Rightarrow>
             datetime_new y m dd (arg_or_zero d ''hour'') (arg_or_zero d ''minute'')
               (arg_or_zero d ''second'') (arg_or_zero d ''microsecond'')
         | _ \<Rightarrow> Inl TypeError))"

text \<open>\<open>_get_time_resolution\<close>: \<open>None\<close> when no branch applies.\<close>

definition get_time_resolution :: "date_args \<Rightarrow> timedelta option" where
  "get_time_resolution date_args =
     (if has_key date_args ''millisecond'' then Some (timedelta_milliseconds 1)
      else if has_key date_args ''second'' then Some (timedelta_seconds 1)
      else if has_key date_args ''minute'' then Some (timedelta_minutes 1)
      else if has_key date_args ''hour'' then Some (timedelta_hours 1)
      else if has_key date_args ''day'' then Some (timedelta_days 1)
      else None)"

section \<open>The \<open>Dataset\<close> class\<close>

type_synonym interval = "datetime \<times> datetime"

text \<open>
  The \<open>time_coverage\<close> attribute: one of the strings \<open>"filename"\<close> and \<open>"content"\<close>, or an
  explicit pair of datetimes.
\<close>

datatype retrieve_method = Filename | Content

datatype coverage = Method retrieve_method | Explicit interval

text \<open>
  The attributes of a \<open>Dataset\<close> object that the modelled methods use. \<open>get_info\<close> stands
  for \<open>self.get_info(filename)["times"]\<close>, which asks the file handler, a collaborator
  outside this module. The cache is a dictionary in insertion order.
\<close>

record dataset =
  ds_name :: string
  files :: "token list"
  files_placeholders :: "string list"
  single_file :: bool
  continuous :: bool
  time_coverage :: coverage
  time_coverages_cache :: "(string \<times> interval) list"
  get_info :: "string \<Rightarrow> error + interval"

subsection \<open>\<open>generate_filename\<close>\<close>

text \<open>
  \<open>(t - datetime(t.year, 1, 1)).days + 1\<close>, the day of the year of a valid datetime.
\<close>

definition day_of_year :: "datetime \<Rightarrow> int" where
  "day_of_year t = days_before_month (dt_year t) (dt_month t) + dt_day t"

text \<open>
  The keyword arguments of the call of \<open>format\<close> in \<open>generate_filename\<close>.
  \<open>int(t.microsecond / 1000)\<close> is the integer quotient for every microsecond count.
\<close>

definition format_args :: "string \<Rightarrow> datetime \<Rightarrow> datetime \<Rightarrow> (string \<times> string) list" where
  "format_args nm start_time end_time =
     [(''year'', str_int (dt_year start_time)),
      (''year2'', last2 (str_int (dt_year start_time))),
      (''month'', fmt_d 2 (dt_month start_time)),
      (''day'', fmt_d 2 (dt_day start_time)),
      (''doy'', fmt_d 3 (day_of_year start_time)),
      (''hour'', fmt_d 2 (dt_hour start_time)),
      (''minute'', fmt_d 2 (dt_minute start_time)),
      (''second'', fmt_d 2 (dt_second start_time)),
      (''millisecond'', fmt_d 3 (dt_microsecond start_time div 1000)),
      (''end_year'', str_int (dt_year end_time)),
      (''end_year2'', last2 (str_int (dt_year end_time))),
      (''end_month'', fmt_d 2 (dt_month end_time)),
      (''end_day'', fmt_d 2 (dt_day end_time)),
      (''end_doy'', fmt_d 3 (day_of_year end_time)),
      (''end_hour'', fmt_d 2 (dt_hour end_time)),
      (''end_minute'', fmt_d 2 (dt_minute end_time)),
      (''end_second'', fmt_d 2 (dt_second end_time)),
      (''end_millisecond'', fmt_d 3 (dt_microsecond end_time div 1000)),
      (''name'', nm)]"

text \<open>\<open>template.format(**kwargs)\<close>: an unknown placeholder raises \<open>KeyError\<close>.\<close>

fun fill_template :: "(string \<times> string) list \<Rightarrow> token list \<Rightarrow> error + string" where
  "fill_template kw [] = Inr []"
| "fill_template kw (Lit c # ts) =
     (case fill_template kw ts of Inl e \<Rightarrow> Inl e | Inr r \<Rightarrow> Inr (c # r))"
| "fill_template kw (Star # ts) =
     (case fill_template kw ts of Inl e \<Rightarrow> Inl e | Inr r \<Rightarrow> Inr (CHR ''*'' # r))"
| "fill_template kw (PH n # ts) =
     (case map_of kw n of
        None \<Rightarrow> Inl KeyError
      | Some v \<Rightarrow> (case fill_template kw ts of Inl e \<Rightarrow> Inl e | Inr r \<Rightarrow> Inr (v @ r)))"

definition generate_filename ::
  "dataset \<Rightarrow> token list \<Rightarrow> datetime \<Rightarrow> datetime option \<Rightarrow> error + string"
where
  "generate_filename self template start_time end_time =
     (let end_time = (case end_time of None \<Rightarrow> start_time | Some e \<Rightarrow> e)
      in fill_template (format_args (ds_name self) start_time end_time) template)"

subsection \<open>\<open>retrieve_time_coverage\<close>\<close>

text \<open>The branch \<open>retrieve_method == "filename"\<close> of \<open>retrieve_time_coverage\<close>.\<close>

definition time_coverage_from_filename ::
  "placeholder_table \<Rightarrow> dataset \<Rightarrow> string \<Rightarrow> error + interval"
where
  "time_coverage_from_filename tab self filename =
     (if single_file self then Inl ValueError
      else case re_compile tab (files self) of
        Inl e \<Rightarrow> Inl e
      | Inr regex \<Rightarrow>
      (case findall_first regex filename of
        None \<Rightarrow> Inl ValueError
      | Some vs \<Rightarrow>
      (case create_date_from_placeholders (files_placeholders self) vs None (Some ''end_'') None of
        Inl e \<Rightarrow> Inl e
      | Inr start_date_args \<Rightarrow>
      (case create_date_from_placeholders (files_placeholders self) vs (Some ''end_'') None
              (Some start_date_args) of
        Inl e \<Rightarrow> Inl e
      | Inr end_date_args \<Rightarrow>
      (case datetime_kw start_date_args of
        Inl e \<Rightarrow> Inl e
      | Inr start_date \<Rightarrow>
      (case datetime_kw end_date_args of
        Inl e \<Rightarrow> Inl e
      | Inr end_date \<Rightarrow>
      (case (if continuous self \<and> start_date = end_date
             then (case get_time_resolution start_date_args of
                     None \<Rightarrow> Inl TypeError
                   | Some td \<Rightarrow> datetime_add end_date td)
             else Inr end_date) of
        Inl e \<Rightarrow> Inl e
      | Inr end_date \<Rightarrow>
      (case (if dt_less end_date start_date
             then datetime_add end_date (timedelta_days 1)
             else Inr end_date) of
        Inl e \<Rightarrow> Inl e
      | Inr end_date \<Rightarrow> Inr (start_date, end_date)))))))))"

text \<open>
  \<open>retrieve_time_coverage\<close>: the cached interval if there is one; the explicit interval
  of the dataset, which is not cached; otherwise the interval found by the method, which
  is stored in the cache. The result carries the dataset with its cache.
\<close>

definition retrieve_time_coverage ::
  "placeholder_table \<Rightarrow> dataset \<Rightarrow> string \<Rightarrow> retrieve_method option \<Rightarrow> error + interval \<times> dataset"
where
  "retrieve_time_coverage tab self filename method =
     (case map_of (time_coverages_cache self) filename of
        Some tc \<Rightarrow> Inr (tc, self)
      | None \<Rightarrow>
          (case (case method of
                   Some m \<Rightarrow> Inr m
                 | None \<Rightarrow> (case time_coverage self of Explicit tc \<Rightarrow> Inl tc | Method m \<Rightarrow> Inr m)) of
             Inl tc \<Rightarrow> Inr (tc, self)
           | Inr m \<Rightarrow>
               (case (case m of
                        Filename \<Rightarrow> time_coverage_from_filename tab self filename
                      | Content \<Rightarrow> get_info self filename) of
                  Inl e \<Rightarrow> Inl e
                | Inr tc \<Rightarrow>
                    Inr (tc, self\<lparr>time_coverages_cache :=
                                    AList.update filename tc (time_coverages_cache self)\<rparr>))))"

subsection \<open>The persisted cache\<close>

text \<open>
  \<open>strftime("%Y-%m-%dT%H:%M:%S.%f")\<close>. Whether \<open>%Y\<close> pads a year below 1000 with zeros
  to four digits is left to the C library of the platform: \<open>pad_year\<close> says whether
  it does.
\<close>

definition strftime_iso :: "bool \<Rightarrow> datetime \<Rightarrow> string" where
  "strftime_iso pad_year t =
     (if pad_year then fmt_d 4 (dt_year t) else str_int (dt_year t)) @ ''-'' @
     fmt_d 2 (dt_month t) @ ''-'' @ fmt_d 2 (dt_day t) @ ''T'' @
     fmt_d 2 (dt_hour t) @ '':'' @ fmt_d 2 (dt_minute t) @ '':'' @ fmt_d 2 (dt_second t) @ ''.'' @
     fmt_d 6 (dt_microsecond t)"

text \<open>
  Reading a number of at least \<open>lo\<close> and at most \<open>hi\<close> digits off the front of a string,
  and reading a given character.
\<close>

definition read_digits :: "nat \<Rightarrow> nat \<Rightarrow> string \<Rightarrow> (string \<times> string) option" where
  "read_digits lo hi s =
     (let ds = takeWhile is_digit (take hi s)
      in if lo \<le> length ds then Some (ds, drop (length ds) s) else None)"

definition read_char :: "char \<Rightarrow> string \<Rightarrow> string option" where
  "read_char c s = (case s of [] \<Rightarrow> None | x # r \<Rightarrow> if x = c then Some r else None)"

text \<open>
  \<open>strptime(s, "%Y-%m-%dT%H:%M:%S.%f")\<close> on text in the layout that \<open>strftime\<close> writes: a
  year of four digits, a month, day, hour, minute and second of one or two digits, and a
  fraction of one to six digits that is padded with zeros on the right. Other text, and
  fields out of range, raise \<open>ValueError\<close>.
\<close>

definition strptime_iso :: "string \<Rightarrow> error + datetime" where
  "strptime_iso s =
     (case read_digits 4 4 s of None \<Rightarrow> Inl ValueError | Some (y, s) \<Rightarrow>
     (case read_char CHR ''-'' s of None \<Rightarrow> Inl ValueError | Some s \<Rightarrow>
     (case read_digits 1 2 s of None \<Rightarrow> Inl ValueError | Some (m, s) \<Rightarrow>
     (case read_char CHR ''-'' s of None \<Rightarrow> Inl ValueError | Some s \<Rightarrow>
     (case read_digits 1 2 s of None \<Rightarrow> Inl ValueError | Some (d, s) \<Rightarrow>
     (case read_char CHR ''T'' s of None \<Rightarrow> Inl ValueError | Some s \<Rightarrow>
     (case read_digits 1 2 s of None \<Rightarrow> Inl ValueError | Some (h, s) \<Rightarrow>
     (case read_char CHR '':'' s of None \<Rightarrow> Inl ValueError | Some s \<Rightarrow>
     (case read_digits 1 2 s of None \<Rightarrow> Inl ValueError | Some (mi, s) \<Rightarrow>
     (case read_char CHR '':'' s of None \<Rightarrow> Inl ValueError | Some s \<Rightarrow>
     (case read_digits 1 2 s of None \<Rightarrow> Inl ValueError | Some (sec, s) \<Rightarrow>
     (case read_char CHR ''.'' s of None \<Rightarrow> Inl ValueError | Some s \<Rightarrow>
     (case read_digits 1 6 s of None \<Rightarrow> Inl ValueError | Some (f, s) \<Rightarrow>
        if s \<noteq> [] then Inl ValueError
        else datetime_new (dec_val y) (dec_val m) (dec_val d) (dec_val h) (dec_val mi)
               (dec_val sec) (dec_val (f @ replicate (6 - length f) CHR ''0'')))))))))))))))"

text \<open>
  The content of the cache file: a JSON object from file names to two strings.
  \<open>json.dump\<close> followed by \<open>json.load\<close> gives such an object back as it was.
\<close>

type_synonym json_times = "(string \<times> string \<times> string) list"

definition save_time_coverages :: "bool \<Rightarrow> dataset \<Rightarrow> json_times" where
  "save_time_coverages pad_year self =
     map (\<lambda>ft. (fst ft, strftime_iso pad_year (fst (snd ft)),
                    strftime_iso pad_year (snd (snd ft))))
       (time_coverages_cache self)"

text \<open>The dictionary comprehension of \<open>load_time_coverages\<close>.\<close>

fun parse_time_coverages :: "json_times \<Rightarrow> error + (string \<times> interval) list" where
  "parse_time_coverages [] = Inr []"
| "parse_time_coverages (ft # rest) =
     (case strptime_iso (fst (snd ft)) of
        Inl e \<Rightarrow> Inl e
      | Inr t0 \<Rightarrow>
          (case strptime_iso (snd (snd ft)) of
             Inl e \<Rightarrow> Inl e
           | Inr t1 \<Rightarrow>
               (case parse_time_coverages rest of
                  Inl e \<Rightarrow> Inl e
                | Inr r \<Rightarrow> Inr ((fst ft, (t0, t1)) # r))))"

text \<open>\<open>dict.update\<close> on dictionaries in insertion order.\<close>

definition dict_update :: "('k \<times> 'v) list \<Rightarrow> ('k \<times> 'v) list \<Rightarrow> ('k \<times> 'v) list" where
  "dict_update d new = foldl (\<lambda>acc kv. AList.update (fst kv) (snd kv) acc) d new"

text \<open>
  A timestamp that the format represents: a valid datetime whose year is written with
  four digits.
\<close>

definition representable :: "bool \<Rightarrow> datetime \<Rightarrow> bool" where
  "representable pad_year t = (valid_datetime t \<and> (pad_year \<or> 1000 \<le> dt_year t))"

definition load_time_coverages :: "dataset \<Rightarrow> json_times \<Rightarrow> error + dataset" where
  "load_time_coverages self content =
     (case parse_time_coverages content of
        Inl e \<Rightarrow> Inl e
      | Inr time_coverages \<Rightarrow>
          Inr (self\<lparr>time_coverages_cache :=
                      dict_update (time_coverages_cache self) time_coverages\<rparr>))"

subsection \<open>Construction\<close>

text \<open>
  The setter of \<open>name\<close>: it stores the name in the object and in the class attribute
  \<open>Dataset.placeholder\<close>, which all objects share. \<open>oid\<close> is \<open>str(id(self))\<close>.
\<close>

definition set_name ::
  "placeholder_table \<Rightarrow> dataset \<Rightarrow> string \<Rightarrow> string option \<Rightarrow> placeholder_table \<times> dataset"
where
  "set_name tab self oid v =
     (let v = (case v of None \<Rightarrow> oid | Some n \<Rightarrow> n)
      in (AList.update ''name'' (Text v) tab, self\<lparr>ds_name := v\<rparr>))"

text \<open>
  The setter of \<open>files\<close>: \<open>re.findall("\{(\w+)\}", self.files)\<close> lists the names of the
  placeholders in order; a dataset without placeholders and without \<open>*\<close> is a single
  file.
\<close>

fun placeholders_of :: "token list \<Rightarrow> string list" where
  "placeholders_of [] = []"
| "placeholders_of (PH n # ts) = n # placeholders_of ts"
| "placeholders_of (t # ts) = placeholders_of ts"

definition set_files :: "dataset \<Rightarrow> token list \<Rightarrow> dataset" where
  "set_files self v =
     self\<lparr>files := v,
          files_placeholders := placeholders_of v,
          single_file := (placeholders_of v = [] \<and> Star \<notin> set v)\<rparr>"

definition datetime_min :: datetime where
  "datetime_min = \<lparr>dt_year = 1, dt_month = 1, dt_day = 1, dt_hour = 0, dt_minute = 0,
                    dt_second = 0, dt_microsecond = 0\<rparr>"

definition datetime_max :: datetime where
  "datetime_max = \<lparr>dt_year = 9999, dt_month = 12, dt_day = 31, dt_hour = 23, dt_minute = 59,
                    dt_second = 59, dt_microsecond = 999999\<rparr>"

text \<open>
  \<open>Dataset.__init__\<close> up to the loading of the cache file. \<open>tab\<close> is the class attribute
  before the call and the first component of the result is the class attribute after it.
\<close>

definition Dataset_new ::
  "placeholder_table \<Rightarrow> string \<Rightarrow> token list \<Rightarrow> (string \<Rightarrow> error + interval) \<Rightarrow> string option \<Rightarrow>
   coverage option \<Rightarrow> bool \<Rightarrow> placeholder_table \<times> dataset"
where
  "Dataset_new tab oid files_arg handler name_arg time_coverage_arg continuous_arg =
     (case set_name tab
             \<lparr>ds_name = [], files = [], files_placeholders = [], single_file = False,
              continuous = continuous_arg, time_coverage = Method Filename,
              time_coverages_cache = [], get_info = handler\<rparr> oid name_arg of
        (tab', self) \<Rightarrow>
          (let self = set_files self files_arg
           in (tab', self\<lparr>time_coverage :=
                        (case time_coverage_arg of
                           None \<Rightarrow>
                             if single_file self then Explicit (datetime_min, datetime_max)
                             else Method Filename
                         | Some c \<Rightarrow> c)\<rparr>)))"

text \<open>
  \<open>Dataset.__init__\<close>. \<open>times_cache\<close> is the content of the cache file when a file name
  was given and the file exists.
\<close>

definition Dataset_init ::
  "placeholder_table \<Rightarrow> string \<Rightarrow> token list \<Rightarrow> (string \<Rightarrow> error + interval) \<Rightarrow> string option \<Rightarrow>
   coverage option \<Rightarrow> json_times option \<Rightarrow> bool \<Rightarrow> error + placeholder_table \<times> dataset"
where
  "Dataset_init tab oid files_arg handler name_arg time_coverage_arg times_cache continuous_arg =
     (case Dataset_new tab oid files_arg handler name_arg time_coverage_arg continuous_arg of
        (tab', self) \<Rightarrow>
          (case times_cache of
             None \<Rightarrow> Inr (tab', self)
           | Some content \<Rightarrow>
               (case load_time_coverages self content of
                  Inl e \<Rightarrow> Inl e
                | Inr self \<Rightarrow> Inr (tab', self))))"

subsection \<open>\<open>find_files\<close>\<close>

text \<open>
  Modelled from the spec: \<open>IntervalTree.overlaps\<close> of \<open>typhon.trees\<close>, which is not
  among the sources. Two half-open intervals overlap when each starts before the other
  ends; touching end points do not count.
\<close>

definition overlaps :: "interval \<Rightarrow> interval \<Rightarrow> bool" where
  "overlaps a b = (dt_less (fst a) (snd b) \<and> dt_less (fst b) (snd a))"

text \<open>
  The file system as the search sees it: \<open>os.path.isfile\<close>, \<open>os.path.isdir\<close>, and for a
  path the files that the recursion of \<open>_get_all_files\<close> reaches from it through
  \<open>glob.iglob\<close>, in the order of enumeration.
\<close>

record filesystem =
  isfile :: "string \<Rightarrow> bool"
  isdir :: "string \<Rightarrow> bool"
  walk :: "string \<Rightarrow> string list"

text \<open>\<open>_get_all_files\<close> yields the reached files that \<open>regex.match\<close> accepts.\<close>

definition get_all_files :: "filesystem \<Rightarrow> string \<Rightarrow> ratom list \<Rightarrow> string list" where
  "get_all_files fs path regex = filter (\<lambda>f. re_match regex f \<noteq> None) (walk fs path)"

text \<open>\<open>self.files.split(os.path.sep)\<close> and \<open>'/'.join(parts)\<close> on token lists.\<close>

fun split_path :: "token list \<Rightarrow> token list list" where
  "split_path [] = [[]]"
| "split_path (t # ts) =
     (if t = Lit CHR ''/'' then [] # split_path ts
      else (case split_path ts of [] \<Rightarrow> [[t]] | p # ps \<Rightarrow> (t # p) # ps))"

fun join_path :: "token list list \<Rightarrow> token list" where
  "join_path [] = []"
| "join_path [p] = p"
| "join_path (p # ps) = p @ Lit CHR ''/'' # join_path ps"

fun first_index :: "('a \<Rightarrow> bool) \<Rightarrow> 'a list \<Rightarrow> nat option" where
  "first_index P [] = None"
| "first_index P (x # xs) = (if P x then Some 0 else map_option Suc (first_index P xs))"

definition is_day_token :: "token \<Rightarrow> bool" where
  "is_day_token t = (t = PH ''day'' \<or> t = PH ''doy'')"

text \<open>
  The loop that looks for the first path part with \<open>{day}\<close> or \<open>{doy}\<close>; the index stays
  0 when there is none.
\<close>

definition find_day_index :: "token list list \<Rightarrow> nat" where
  "find_day_index path_parts =
     (case first_index (\<lambda>part. list_ex is_day_token part) path_parts of
        None \<Rightarrow> 0
      | Some i \<Rightarrow> i)"

text \<open>
  \<open>_get_files_path\<close>: the template is cut after the first \<open>{day}\<close> or \<open>{doy}\<close> of the
  leading path parts and filled with the date. Without such a placeholder \<open>min\<close> is
  called on an empty list and raises \<open>ValueError\<close>.
\<close>

definition get_files_path ::
  "filesystem \<Rightarrow> dataset \<Rightarrow> datetime \<Rightarrow> token list list \<Rightarrow> nat \<Rightarrow> error + string"
where
  "get_files_path fs self date path_parts day_index =
     (let path_name = join_path (take (day_index + 1) path_parts)
      in case first_index is_day_token path_name of
           None \<Rightarrow> Inl ValueError
         | Some i \<Rightarrow>
             (case generate_filename self (take (i + 1) path_name) date None of
                Inl e \<Rightarrow> Inl e
              | Inr daily_path \<Rightarrow>
                  Inr (if isdir fs daily_path then daily_path @ ''/'' else daily_path)))"

text \<open>The ordinal of a date, counted from 1 January of year 1.\<close>

definition days_before_year :: "int \<Rightarrow> int" where
  "days_before_year y = (y - 1) * 365 + (y - 1) div 4 - (y - 1) div 100 + (y - 1) div 400"

definition toordinal :: "int \<times> int \<times> int \<Rightarrow> int" where
  "toordinal ymd = (case ymd of (y, m, d) \<Rightarrow> days_before_year y + days_before_month y m + d)"

definition midnight :: "int \<times> int \<times> int \<Rightarrow> datetime" where
  "midnight ymd =
     (case ymd of (y, m, d) \<Rightarrow>
        \<lparr>dt_year = y, dt_month = m, dt_day = d, dt_hour = 0, dt_minute = 0, dt_second = 0,
         dt_microsecond = 0\<rparr>)"

text \<open>
  The dates of the search: \<open>pd.date_range(start.date() - timedelta(days=1), end)\<close>, one
  per day, without the last one when it is \<open>end\<close> itself and is not the only one.
  (The narrower range of years that pandas accepts is not modelled.)
\<close>

definition search_dates :: "datetime \<Rightarrow> datetime \<Rightarrow> error + datetime list" where
  "search_dates start end_time =
     (let d0 = add_days (dt_year start, dt_month start, dt_day start) (- 1)
      in if fst d0 < 1 then Inl OverflowError
         else
           (let n = toordinal (dt_year end_time, dt_month end_time, dt_day end_time)
                      - toordinal d0 + 1;
                dates = map (\<lambda>i. midnight (add_days d0 i)) [0 .. n - 1]
            in Inr (if 1 < length dates \<and> last dates = end_time then butlast dates
                    else dates)))"

text \<open>
  \<open>_check_file\<close>: the time coverage of the file overlaps the interval of the search.
\<close>

definition check_file ::
  "placeholder_table \<Rightarrow> dataset \<Rightarrow> string \<Rightarrow> datetime \<Rightarrow> datetime \<Rightarrow> error + bool \<times> dataset"
where
  "check_file tab self filename start end_time =
     (case retrieve_time_coverage tab self filename None of
        Inl e \<Rightarrow> Inl e
      | Inr (tc, self) \<Rightarrow> Inr (overlaps tc (start, end_time), self))"

text \<open>
  The loops of the generator \<open>found_files\<close>, run to their end: over the files of one
  search path, and over all dates. An exception raised on the way is the result.
\<close>

fun found_in_path ::
  "placeholder_table \<Rightarrow> datetime \<Rightarrow> datetime \<Rightarrow> string list \<Rightarrow> dataset \<Rightarrow>
   error + (string \<times> interval) list \<times> dataset"
where
  "found_in_path tab start end_time [] self = Inr ([], self)"
| "found_in_path tab start end_time (filename # rest) self =
     (case check_file tab self filename start end_time of
        Inl e \<Rightarrow> Inl e
      | Inr okself \<Rightarrow>
          if fst okself
          then (case retrieve_time_coverage tab (snd okself) filename None of
                  Inl e \<Rightarrow> Inl e
                | Inr tcself \<Rightarrow>
                    (case found_in_path tab start end_time rest (snd tcself) of
                       Inl e \<Rightarrow> Inl e
                     | Inr r \<Rightarrow> Inr ((filename, fst tcself) # fst r, snd r)))
          else found_in_path tab start end_time rest (snd okself))"

fun found_in_dates ::
  "placeholder_table \<Rightarrow> filesystem \<Rightarrow> ratom list \<Rightarrow> token list list \<Rightarrow> nat \<Rightarrow> datetime \<Rightarrow>
   datetime \<Rightarrow> datetime list \<Rightarrow> dataset \<Rightarrow> error + (string \<times> interval) list \<times> dataset"
where
  "found_in_dates tab fs regex path_parts day_index start end_time [] self = Inr ([], self)"
| "found_in_dates tab fs regex path_parts day_index start end_time (date # dates) self =
     (case get_files_path fs self date path_parts day_index of
        Inl e \<Rightarrow> Inl e
      | Inr path \<Rightarrow>
          (case found_in_path tab start end_time (get_all_files fs path regex) self of
             Inl e \<Rightarrow> Inl e
           | Inr r1 \<Rightarrow>
               (case found_in_dates tab fs regex path_parts day_index start end_time dates
                       (snd r1) of
                  Inl e \<Rightarrow> Inl e
                | Inr r2 \<Rightarrow> Inr (fst r1 @ fst r2, snd r2))))"

text \<open>
  The generator \<open>found_files\<close> of a dataset of many files, with the statements of
  \<open>find_files\<close> that prepare it: the path parts, the index of the day, the regular
  expression and the dates.
\<close>

definition found_files ::
  "placeholder_table \<Rightarrow> filesystem \<Rightarrow> dataset \<Rightarrow> datetime \<Rightarrow> datetime \<Rightarrow>
   error + (string \<times> interval) list \<times> dataset"
where
  "found_files tab fs self start end_time =
     (let path_parts = split_path (files self);
          day_index = find_day_index path_parts
      in case re_compile tab (files self) of
           Inl e \<Rightarrow> Inl e
         | Inr regex \<Rightarrow>
             (case search_dates start end_time of
                Inl e \<Rightarrow> Inl e
              | Inr dates \<Rightarrow>
                  found_in_dates tab fs regex path_parts day_index start end_time dates self))"

text \<open>The text of a template, which for a single file dataset is the path of the file.\<close>

fun template_text :: "token list \<Rightarrow> string" where
  "template_text [] = []"
| "template_text (Lit c # ts) = c # template_text ts"
| "template_text (Star # ts) = CHR ''*'' # template_text ts"
| "template_text (PH n # ts) = CHR ''{'' # n @ CHR ''}'' # template_text ts"

text \<open>\<open>sorted(found_files, key=lambda x: x[1][0])\<close>, a stable sort by the start time.\<close>

definition sorted_by_start :: "(string \<times> interval) list \<Rightarrow> (string \<times> interval) list" where
  "sorted_by_start xs = sort_key (\<lambda>x. dt_key (fst (snd x))) xs"

text \<open>
  \<open>find_files\<close>, as the list of everything that the generator yields, or the exception
  that ends it.
\<close>

definition find_files ::
  "placeholder_table \<Rightarrow> filesystem \<Rightarrow> dataset \<Rightarrow> datetime \<Rightarrow> datetime \<Rightarrow> bool \<Rightarrow> bool \<Rightarrow>
   error + (string \<times> interval) list \<times> dataset"
where
  "find_files tab fs self start end_time sorting no_files_error =
     (if single_file self then
        (if isfile fs (template_text (files self)) then
           (case retrieve_time_coverage tab self (template_text (files self)) None of
              Inl e \<Rightarrow> Inl e
            | Inr tcself \<Rightarrow>
                if overlaps (fst tcself) (start, end_time)
                then Inr ([(template_text (files self), fst tcself)], snd tcself)
                else if no_files_error then Inl NoFilesError
                else Inr ([], snd tcself))
         else Inl ValueError)
      else
        (case found_files tab fs self start end_time of
           Inl e \<Rightarrow> Inl e
         | Inr r \<Rightarrow>
             if \<not> no_files_error
             then Inr (if sorting then sorted_by_start (fst r) else fst r, snd r)
             else if fst r = [] then Inl NoFilesError
             else Inr (if sorting then sorted_by_start (fst r) else fst r, snd r)))"

subsection \<open>A dataset of its own\<close>

text \<open>
  \<open>Dataset(template, continuous=c)\<close> when it is the only dataset that has been
  constructed: the class attribute is as the class body leaves it, no name is given, and
  the time coverage is read from the file names. The result is the class attribute and
  the object.
\<close>

definition alone :: "string \<Rightarrow> bool \<Rightarrow> placeholder_table \<times> dataset" where
  "alone template c =
     Dataset_new placeholder ''140000000'' (template_of template) (\<lambda>f. Inl ValueError)
       None None c"

text \<open>\<open>Dataset(template, continuous=c).retrieve_time_coverage(filename)\<close>.\<close>

definition resolve_alone :: "string \<Rightarrow> bool \<Rightarrow> string \<Rightarrow> error + interval" where
  "resolve_alone template c filename =
     map_sum id fst
       (retrieve_time_coverage (fst (alone template c)) (snd (alone template c)) filename None)"

text \<open>
  A directory tree with two files of 12 November 2017 and one of the day before; the
  files of the 12th are enumerated with the later one first.
\<close>

definition example_fs :: filesystem where
  "example_fs =
     \<lparr>isfile = (\<lambda>p. False),
      isdir = (\<lambda>p. p = ''d/2017/11/12'' \<or> p = ''d/2017/11/11''),
      walk = (\<lambda>p. if p = ''d/2017/11/12/''
                   then [''d/2017/11/12/1500.nc'', ''d/2017/11/12/0300.nc'']
                   else if p = ''d/2017/11/11/'' then [''d/2017/11/11/2359.nc'']
                   else [])\<rparr>"

text \<open>
  Two datasets that are constructed one after the other with the same template and the
  names \<open>A\<close> and \<open>B\<close>.
\<close>

definition first_A :: "placeholder_table \<times> dataset" where
  "first_A =
     Dataset_new placeholder ''140000000''
       (template_of ''/data/{name}/{year}/{month}/{day}.nc'')
       (\<lambda>f. Inl ValueError) (Some ''A'') None True"

definition then_B :: "placeholder_table \<times> dataset" where
  "then_B =
     Dataset_new (fst first_A) ''140000512''
       (template_of ''/data/{name}/{year}/{month}/{day}.nc'')
       (\<lambda>f. Inl ValueError) (Some ''B'') None True"


text \<open>
  A dataset whose cache holds the coverage of two files, one with microseconds and one
  in the last year; its cache file would be given by name.
\<close>

definition cached_example :: dataset where
  "cached_example =
     (snd (alone ''/dir/{year}/{month}/{day}.nc'' True))
       \<lparr>time_coverages_cache :=
          [(''/dir/2017/11/12.nc'',
            (\<lparr>dt_year = 2017, dt_month = 11, dt_day = 12, dt_hour = 0, dt_minute = 0,
              dt_second = 5, dt_microsecond = 250\<rparr>,
             midnight (2017, 11, 13))),
           (''/dir/9999/12/31.nc'', (midnight (9999, 12, 31), datetime_max))]\<rparr>"

subsection \<open>Templates and timestamps of the round trip\<close>

text \<open>
  A character of a template that stands for itself in the regular expression, or is the
  dot: not one of the other operators of regular expressions.
\<close>

definition plain_char :: "char \<Rightarrow> bool" where
  "plain_char c =
     (c \<notin> set [CHR 0x5C, CHR ''^'', CHR ''$'', CHR ''|'', CHR ''?'', CHR ''*'', CHR ''+'',
                CHR ''('', CHR '')'', CHR ''['', CHR '']'', CHR ''{'', CHR ''}''])"

text \<open>The placeholders of the start of the coverage.\<close>

definition start_placeholders :: "string list" where
  "start_placeholders =
     [''year'', ''year2'', ''month'', ''day'', ''doy'', ''hour'', ''minute'', ''second'',
      ''millisecond'']"

fun plain_token :: "token \<Rightarrow> bool" where
  "plain_token (Lit c) = plain_char c"
| "plain_token (PH n) = (n \<in> set start_placeholders)"
| "plain_token Star = False"

text \<open>
  The templates of the round trip: plain characters and placeholders of the start, no
  wildcard; the placeholders give a year and a day (by month and day, or by the day of
  the year), and with each unit of the time of day every coarser one.
\<close>

definition roundtrip_template :: "token list \<Rightarrow> bool" where
  "roundtrip_template toks =
     (list_all plain_token toks \<and>
      list_ex (\<lambda>p. p = ''year'' \<or> p = ''year2'') (placeholders_of toks) \<and>
      (list_ex (\<lambda>p. p = ''doy'') (placeholders_of toks) \<or>
       list_ex (\<lambda>p. p = ''month'') (placeholders_of toks) \<and>
       list_ex (\<lambda>p. p = ''day'') (placeholders_of toks)) \<and>
      (list_ex (\<lambda>p. p = ''hour'') (placeholders_of toks) \<or>
       list_all (\<lambda>p. p \<noteq> ''minute'') (placeholders_of toks)) \<and>
      (list_ex (\<lambda>p. p = ''minute'') (placeholders_of toks) \<or>
       list_all (\<lambda>p. p \<noteq> ''second'') (placeholders_of toks)) \<and>
      (list_ex (\<lambda>p. p = ''second'') (placeholders_of toks) \<or>
       list_all (\<lambda>p. p \<noteq> ''millisecond'') (placeholders_of toks)))"

text \<open>
  The timestamps of the round trip for a template: valid, with a year of four digits
  before 9999, and a year from 1965 to 2064 when the template has \<open>{year2}\<close>.
\<close>

definition roundtrip_time :: "token list \<Rightarrow> datetime \<Rightarrow> bool" where
  "roundtrip_time toks t =
     (valid_datetime t \<and> 1000 \<le> dt_year t \<and> dt_year t < 9999 \<and>
      (list_all (\<lambda>p. p \<noteq> ''year2'') (placeholders_of toks) \<or>
       1965 \<le> dt_year t \<and> dt_year t \<le> 2064))"

text \<open>
  The number that \<open>generate_filename\<close> writes for a placeholder of the start.
\<close>

definition placeholder_value :: "datetime \<Rightarrow> string \<Rightarrow> int" where
  "placeholder_value t p =
     (if p = ''year'' then dt_year t
      else if p = ''year2'' then dt_year t mod 100
      else if p = ''month'' then dt_month t
      else if p = ''day'' then dt_day t
      else if p = ''doy'' then day_of_year t
      else if p = ''hour'' then dt_hour t
      else if p = ''minute'' then dt_minute t
      else if p = ''second'' then dt_second t
      else dt_microsecond t div 1000)"

text \<open>
  The key of the date arguments under which the loop of
  \<open>_create_date_from_placeholders\<close> stores the value of a placeholder of the start, and
  the number that it stores there for a file name that was generated from \<open>t\<close>.
\<close>

definition date_key :: "string \<Rightarrow> string" where
  "date_key p =
     (if p = ''year2'' then ''year'' else if p = ''millisecond'' then ''microsecond'' else p)"

definition date_value :: "datetime \<Rightarrow> string \<Rightarrow> int" where
  "date_value t k =
     (if k = ''year'' then dt_year t
      else if k = ''month'' then dt_month t
      else if k = ''day'' then dt_day t
      else if k = ''doy'' then day_of_year t
      else if k = ''hour'' then dt_hour t
      else if k = ''minute'' then dt_minute t
      else if k = ''second'' then dt_second t
      else dt_microsecond t div 1000 * 1000)"

text \<open>
  A table of placeholders as the setter of \<open>name\<close> can leave it: every entry but that of
  \<open>name\<close> is as in the class body.
\<close>

definition standard_table :: "placeholder_table \<Rightarrow> bool" where
  "standard_table tab =
     list_all (\<lambda>e. fst e = ''name'' \<or> map_of tab (fst e) = Some (snd e)) placeholder"

section \<open>Resolution of single file names\<close>

text \<open>
  The example of the class documentation: a file of a daily template covers the whole
  day when the dataset is continuous, and an instant when it is not.
\<close>

lemma daily_file_continuous:
  "resolve_alone ''/dir/{year}/{month}/{day}.nc'' True ''/dir/2017/11/12.nc'' =
     Inr (midnight (2017, 11, 12), midnight (2017, 11, 13))"
  by code_simp

lemma daily_file_not_continuous:
  "resolve_alone ''/dir/{year}/{month}/{day}.nc'' False ''/dir/2017/11/12.nc'' =
     Inr (midnight (2017, 11, 12), midnight (2017, 11, 12))"
  by code_simp

text \<open>
  Claim C2, where the code departs from it. The claim says that the end of a continuous
  file is extended by the finest unit among the placeholders, the millisecond first.
  \<open>_get_time_resolution\<close> looks for the key \<open>millisecond\<close>, but the value of
  \<open>{millisecond}\<close> is stored under \<open>microsecond\<close>: a file name with hours, minutes,
  seconds and milliseconds is extended by one second, not by one millisecond.
\<close>

theorem millisecond_file_extended_by_second:
  "resolve_alone ''{year}/{month}/{day}/{hour}{minute}{second}{millisecond}.nc'' True
       ''2017/11/12/101112123.nc'' =
     Inr (\<lparr>dt_year = 2017, dt_month = 11, dt_day = 12, dt_hour = 10, dt_minute = 11,
           dt_second = 12, dt_microsecond = 123000\<rparr>,
          \<lparr>dt_year = 2017, dt_month = 11, dt_day = 12, dt_hour = 10, dt_minute = 11,
           dt_second = 13, dt_microsecond = 123000\<rparr>)"
  by code_simp

text \<open>
  Claim C3, where the code departs from it. The claim says that every resolved interval
  has its start at or before its end. One day is added to an end that lies before the
  start, once: a file that runs from 30 November to the 2nd of the next month, with only
  the day of the end in its name, gets an end 27 days before its start.
\<close>

theorem end_day_before_start_day:
  "resolve_alone ''{year}{month}{day}-{end_day}.nc'' True ''20171130-02.nc'' =
     Inr (midnight (2017, 11, 30), midnight (2017, 11, 3)) \<and>
   dt_less (midnight (2017, 11, 3)) (midnight (2017, 11, 30))"
  by code_simp

text \<open>
  Claim C6, where the code departs from it. The claim says that \<open>{end_millisecond}\<close>
  sets the microseconds of the end. The value is stored under the key
  \<open>end_microsecond\<close>, which \<open>datetime\<close> does not accept: the resolution of a file name
  raises \<open>TypeError\<close>. The value of \<open>{millisecond}\<close> alone does set the microseconds of
  the start.
\<close>

theorem end_millisecond_raises:
  "resolve_alone
       ''{year}{month}{day}{hour}{minute}{second}{millisecond}-{end_hour}{end_minute}{end_second}{end_millisecond}.nc''
       True ''20171112101112123-101113456.nc'' = Inl TypeError \<and>
   map_sum id (dt_microsecond \<circ> fst)
     (resolve_alone ''{year}{month}{day}{hour}{minute}{second}{millisecond}.nc'' True
        ''20171112101112123.nc'') = Inr (123 * 1000)"
  by code_simp

section \<open>The shared table of placeholders\<close>










text \<open>
  The same for the search that the resolution of a file name uses: after the construction
  of \<open>B\<close>, the expression of \<open>A\<close> is found in a path of \<open>B\<close> and not in a path of its own.
\<close>

lemma first_dataset_matches_second_name:
  "(case re_compile (fst then_B) (files (snd first_A)) of
      Inl e \<Rightarrow> None
    | Inr r \<Rightarrow> map_option snd (re_search r ''/data/B/2017/11/12.nc'')) =
     Some [''2017'', ''11'', ''12'']"
  by code_simp

lemma first_dataset_misses_own_name:
  "(case re_compile (fst then_B) (files (snd first_A)) of
      Inl e \<Rightarrow> None
    | Inr r \<Rightarrow> map_option snd (re_search r ''/data/A/2017/11/12.nc'')) = None"
  by code_simp

section \<open>The search for files\<close>

text \<open>
  Claim C7. Whatever the file system enumerates and in whatever order, a search with
  \<open>sort=True\<close> that returns, returns its pairs with start times that do not decrease;
  they are the pairs of the search with \<open>sort=False\<close>, rearranged.
\<close>

theorem find_files_sorted:
  assumes "map_sum id fst (find_files tab fs self start end_time True nfe) = Inr res"
  shows "sorted_wrt (\<lambda>a b. dt_le (fst (snd a)) (fst (snd b))) res \<and>
         (\<exists>res0. map_sum id fst (find_files tab fs self start end_time False nfe) = Inr res0 \<and>
                 set res = set res0 \<and> length res = length res0)"
proof -
  have s: "sorted_wrt (\<lambda>a b. dt_le (fst (snd a)) (fst (snd b))) (sorted_by_start xs)" for xs
    using sorted_sort_key [of "\<lambda>x. dt_key (fst (snd x))" xs]
    by (simp add: sorted_by_start_def sorted_map dt_le_def)
  show ?thesis
    using assms s
    by (auto simp: find_files_def sorted_by_start_def split: if_splits sum.splits)
qed

theorem find_files_sorted_witness:
  "map_sum id fst
     (find_files (fst (alone ''d/{year}/{month}/{day}/{hour}{minute}.nc'' True)) example_fs
        (snd (alone ''d/{year}/{month}/{day}/{hour}{minute}.nc'' True))
        (midnight (2017, 11, 12)) (midnight (2017, 11, 13)) True True) =
     Inr [(''d/2017/11/12/0300.nc'',
           \<lparr>dt_year = 2017, dt_month = 11, dt_day = 12, dt_hour = 3, dt_minute = 0,
            dt_second = 0, dt_microsecond = 0\<rparr>,
           \<lparr>dt_year = 2017, dt_month = 11, dt_day = 12, dt_hour = 3, dt_minute = 1,
            dt_second = 0, dt_microsecond = 0\<rparr>),
          (''d/2017/11/12/1500.nc'',
           \<lparr>dt_year = 2017, dt_month = 11, dt_day = 12, dt_hour = 15, dt_minute = 0,
            dt_second = 0, dt_microsecond = 0\<rparr>,
           \<lparr>dt_year = 2017, dt_month = 11, dt_day = 12, dt_hour = 15, dt_minute = 1,
            dt_second = 0, dt_microsecond = 0\<rparr>)] \<and>
   dt_le \<lparr>dt_year = 2017, dt_month = 11, dt_day = 12, dt_hour = 3, dt_minute = 0,
          dt_second = 0, dt_microsecond = 0\<rparr>
         \<lparr>dt_year = 2017, dt_month = 11, dt_day = 12, dt_hour = 15, dt_minute = 0,
          dt_second = 0, dt_microsecond = 0\<rparr>"
proof -
  have h: "map_sum id fst
     (find_files (fst (alone ''d/{year}/{month}/{day}/{hour}{minute}.nc'' True)) example_fs
        (snd (alone ''d/{year}/{month}/{day}/{hour}{minute}.nc'' True))
        (midnight (2017, 11, 12)) (midnight (2017, 11, 13)) True True) =
     Inr [(''d/2017/11/12/0300.nc'',
           \<lparr>dt_year = 2017, dt_month = 11, dt_day = 12, dt_hour = 3, dt_minute = 0,
            dt_second = 0, dt_microsecond = 0\<rparr>,
           \<lparr>dt_year = 2017, dt_month = 11, dt_day = 12, dt_hour = 3, dt_minute = 1,
            dt_second = 0, dt_microsecond = 0\<rparr>),
          (''d/2017/11/12/1500.nc'',
           \<lparr>dt_year = 2017, dt_month = 11, dt_day = 12, dt_hour = 15, dt_minute = 0,
            dt_second = 0, dt_microsecond = 0\<rparr>,
           \<lparr>dt_year = 2017, dt_month = 11, dt_day = 12, dt_hour = 15, dt_minute = 1,
            dt_second = 0, dt_microsecond = 0\<rparr>)]"
    by code_simp
  from find_files_sorted [OF h] show ?thesis using h by simp
qed

text \<open>
  Claim C5. No file is found when the search runs to its end and nothing passes the
  check of the time coverage: for a dataset of many files the generator \<open>found_files\<close>
  yields nothing, and for a single file dataset the file is there and its coverage does
  not overlap the interval. Then \<open>no_files_error=True\<close> raises \<open>NoFilesError\<close>, and
  \<open>no_files_error=False\<close> returns the empty sequence, sorted or not.
\<close>

theorem no_files_policy:
  assumes "(single_file self \<and> isfile fs (template_text (files self)) \<and>
            map_sum id fst (retrieve_time_coverage tab self (template_text (files self)) None)
              = Inr tc \<and>
            \<not> overlaps tc (start, end_time)) \<or>
           (\<not> single_file self \<and>
            map_sum id fst (found_files tab fs self start end_time) = Inr [])"
  shows "find_files tab fs self start end_time sorting True = Inl NoFilesError \<and>
         map_sum id fst (find_files tab fs self start end_time sorting False) = Inr []"
  using assms
  by (auto simp: find_files_def sorted_by_start_def split: sum.splits)

theorem no_files_policy_witness:
  "\<not> single_file (snd (alone ''d/{year}/{month}/{day}/{hour}{minute}.nc'' True)) \<and>
   map_sum id fst
     (found_files (fst (alone ''d/{year}/{month}/{day}/{hour}{minute}.nc'' True)) example_fs
        (snd (alone ''d/{year}/{month}/{day}/{hour}{minute}.nc'' True))
        (midnight (2016, 11, 12)) (midnight (2016, 11, 13))) = Inr [] \<and>
   find_files (fst (alone ''d/{year}/{month}/{day}/{hour}{minute}.nc'' True)) example_fs
        (snd (alone ''d/{year}/{month}/{day}/{hour}{minute}.nc'' True))
        (midnight (2016, 11, 12)) (midnight (2016, 11, 13)) True True = Inl NoFilesError \<and>
   map_sum id fst
     (find_files (fst (alone ''d/{year}/{month}/{day}/{hour}{minute}.nc'' True)) example_fs
        (snd (alone ''d/{year}/{month}/{day}/{hour}{minute}.nc'' True))
        (midnight (2016, 11, 12)) (midnight (2016, 11, 13)) True False) = Inr []"
proof -
  have a: "\<not> single_file (snd (alone ''d/{year}/{month}/{day}/{hour}{minute}.nc'' True))"
    by code_simp
  have b: "map_sum id fst
     (found_files (fst (alone ''d/{year}/{month}/{day}/{hour}{minute}.nc'' True)) example_fs
        (snd (alone ''d/{year}/{month}/{day}/{hour}{minute}.nc'' True))
        (midnight (2016, 11, 12)) (midnight (2016, 11, 13))) = Inr []"
    by code_simp
  from no_files_policy [of _ _ _ undefined, OF disjI2, OF conjI, OF a b, of True]
  show ?thesis using a b by simp
qed

section \<open>Dates from the values of the placeholders\<close>


lemma create_date_loop_keeps:
  assumes "create_date_loop p ex vs xs a = Inr a'"
      and "\<And>ph v a0. ph \<in> snd ` set xs \<Longrightarrow> map_of (date_args_step p ex ph v a0) k = map_of a0 k"
  shows "map_of a' k = map_of a k"
  using assms
proof (induction xs arbitrary: a)
  case Nil
  then show ?case by simp
next
  case (Cons x xs)
  from Cons.prems(1) obtain s v where
    v: "values_index vs (fst x) = Inr s" "py_int s = Inr v"
    and l: "create_date_loop p ex vs xs (date_args_step p ex (snd x) v a) = Inr a'"
    by (auto split: sum.splits)
  have "map_of a' k = map_of (date_args_step p ex (snd x) v a) k"
    using Cons.IH [OF l] Cons.prems(2) by simp
  also have "\<dots> = map_of a k" using Cons.prems(2) [of "snd x" v a] by simp
  finally show ?case .
qed











text \<open>
  Claim C9 names the templates without \<open>{millisecond}\<close>, \<open>{second}\<close>, \<open>{minute}\<close>,
  \<open>{hour}\<close> and \<open>{day}\<close> and says that their continuous files raise \<open>TypeError\<close> because
  no time resolution is found. A template with \<open>{year}\<close> and \<open>{doy}\<close> is one of them, and
  its files resolve to the interval of one day: the day of the year is turned into a month
  and a day before the resolution is looked up.
\<close>

theorem doy_template_counterexample:
  "placeholders_of (template_of ''{year}/{doy}.nc'') = [''year'', ''doy''] \<and>
   resolve_alone ''{year}/{doy}.nc'' True ''2017/316.nc'' =
     Inr (midnight (2017, 11, 12), midnight (2017, 11, 13))"
  by code_simp


lemma step_keeps_day:
  "ph \<noteq> ''day'' \<Longrightarrow> map_of (date_args_step [] ex ph v a) ''day'' = map_of a ''day''"
  by (simp add: date_args_step_def update_conv')

lemma start_args_without_day:
  assumes c: "create_date_from_placeholders phs vs None ex None = Inr sa"
      and n: "''day'' \<notin> set phs" "''doy'' \<notin> set phs"
  shows "map_of sa ''day'' = None"
proof -
  from c n have l: "create_date_loop [] ex vs (enumerate 0 phs) [] = Inr sa"
    by (auto simp: create_date_from_placeholders_def split: sum.splits if_splits)
  have "map_of sa ''day'' = map_of [] ''day''"
  proof (rule create_date_loop_keeps [OF l])
    fix ph v a0
    assume "ph \<in> snd ` set (enumerate 0 phs)"
    then have "ph \<in> set phs" by (metis list.set_map map_snd_enumerate)
    with n have "ph \<noteq> ''day''" by auto
    then show "map_of (date_args_step [] ex ph v a0) ''day'' = map_of a0 ''day''"
      by (rule step_keeps_day)
  qed
  then show ?thesis by simp
qed

lemma datetime_kw_without_day:
  "map_of a ''day'' = None \<Longrightarrow> datetime_kw a = Inl TypeError"
  by (auto simp: datetime_kw_def split: option.splits)

lemma resolution_known_for_built_date:
  "datetime_kw a = Inr d \<Longrightarrow> get_time_resolution a \<noteq> None"
  by (auto simp: datetime_kw_def get_time_resolution_def has_key_def split: if_splits option.splits)


text \<open>
  Claim C9 as amended. With neither \<open>{day}\<close> nor \<open>{doy}\<close> among the placeholders, no file
  name resolves to an interval, whether the dataset is continuous or not: when the values
  of the placeholders have been read, \<open>datetime(**start_date_args)\<close> raises \<open>TypeError\<close>,
  since no day is given. The lookup of the time resolution is not reached; by
  \<open>resolution_known_for_built_date\<close> it finds a unit whenever the start could be built.
\<close>

theorem no_day_placeholder_no_interval:
  assumes n: "''day'' \<notin> set (files_placeholders self)" "''doy'' \<notin> set (files_placeholders self)"
  shows "(\<exists>e. time_coverage_from_filename tab self filename = Inl e) \<and>
         (\<not> single_file self \<and> re_compile tab (files self) = Inr regex \<and>
          findall_first regex filename = Some vs \<and>
          create_date_from_placeholders (files_placeholders self) vs None (Some ''end_'') None
            = Inr sa \<and>
          create_date_from_placeholders (files_placeholders self) vs (Some ''end_'') None (Some sa)
            = Inr ea
          \<longrightarrow> time_coverage_from_filename tab self filename = Inl TypeError)"
proof -
  have k: "datetime_kw sa' = Inl TypeError"
    if "create_date_from_placeholders (files_placeholders self) vs' None (Some ''end_'') None
          = Inr sa'" for vs' sa'
    using start_args_without_day [OF that n] by (rule datetime_kw_without_day)
  show ?thesis
    using k by (auto simp: time_coverage_from_filename_def split: sum.splits option.splits)
qed


theorem no_day_placeholder_no_interval_witness:
  "''day'' \<notin> set (files_placeholders (snd (alone ''{year}/{month}.nc'' True))) \<and>
   ''doy'' \<notin> set (files_placeholders (snd (alone ''{year}/{month}.nc'' True))) \<and>
   time_coverage_from_filename (fst (alone ''{year}/{month}.nc'' True))
     (snd (alone ''{year}/{month}.nc'' True)) ''2017/11.nc'' = Inl TypeError"
proof -
  let ?D = "alone ''{year}/{month}.nc'' True"
  let ?R = "[RDigits 4, RChar CHR ''/'', RDigits 2, RAny, RChar CHR ''n'', RChar CHR ''c'']"
  have n: "''day'' \<notin> set (files_placeholders (snd ?D))" "''doy'' \<notin> set (files_placeholders (snd ?D))"
    by code_simp+
  have s: "\<not> single_file (snd ?D)" by code_simp
  have r: "re_compile (fst ?D) (files (snd ?D)) = Inr ?R" by code_simp
  have f: "findall_first ?R ''2017/11.nc'' = Some (VTuple [''2017'', ''11''])" by code_simp
  have c1: "create_date_from_placeholders (files_placeholders (snd ?D)) (VTuple [''2017'', ''11''])
              None (Some ''end_'') None = Inr [(''year'', 2017), (''month'', 11)]" by code_simp
  have c2: "create_date_from_placeholders (files_placeholders (snd ?D)) (VTuple [''2017'', ''11''])
              (Some ''end_'') None (Some [(''year'', 2017), (''month'', 11)])
              = Inr [(''year'', 2017), (''month'', 11)]" by code_simp
  from no_day_placeholder_no_interval [OF n, of "fst ?D" "''2017/11.nc''" ?R
      "VTuple [''2017'', ''11'']" "[(''year'', 2017), (''month'', 11)]" "[(''year'', 2017), (''month'', 11)]"]
  show ?thesis using n s r f c1 c2 by simp
qed

section \<open>Decimal text of numbers\<close>

declare str_digits.simps [simp del]

lemma is_digit_digit_char: "0 \<le> i \<Longrightarrow> i < 10 \<Longrightarrow> is_digit (digit_char i)"
  by (simp add: is_digit_def digit_char_def)

lemma digit_val_digit_char: "0 \<le> i \<Longrightarrow> i < 10 \<Longrightarrow> digit_val (digit_char i) = i"
  by (simp add: digit_val_def digit_char_def)

lemma dec_val_snoc: "dec_val (s @ [c]) = dec_val s * 10 + digit_val c"
  by (simp add: dec_val_def)

lemma str_digits_digits: "0 \<le> i \<Longrightarrow> list_all is_digit (str_digits i)"
proof (induction i rule: str_digits.induct)
  case (1 i)
  show ?case
  proof (cases "i < 10")
    case True
    with "1.prems" show ?thesis by (subst str_digits.simps) (simp add: is_digit_digit_char)
  next
    case False
    with "1" show ?thesis by (subst str_digits.simps) (simp add: is_digit_digit_char)
  qed
qed

lemma str_digits_nonempty: "str_digits i \<noteq> []"
  by (subst str_digits.simps) simp

lemma dec_val_str_digits: "0 \<le> i \<Longrightarrow> dec_val (str_digits i) = i"
proof (induction i rule: str_digits.induct)
  case (1 i)
  show ?case
  proof (cases "i < 10")
    case True
    with "1.prems" show ?thesis
      by (subst str_digits.simps) (simp add: dec_val_def digit_val_digit_char)
  next
    case False
    with "1" have "dec_val (str_digits (i div 10)) = i div 10" by simp
    with False show ?thesis
      by (subst str_digits.simps) (simp add: dec_val_snoc digit_val_digit_char)
  qed
qed

lemma length_str_digits: "i < 10 ^ Suc w \<Longrightarrow> length (str_digits i) \<le> Suc w"
proof (induction w arbitrary: i)
  case 0
  then show ?case by (subst str_digits.simps) simp
next
  case (Suc w)
  show ?case
  proof (cases "i < 10")
    case True
    then show ?thesis by (subst str_digits.simps) simp
  next
    case False
    have "i div 10 < k" if "i < 10 * k" for k :: int using that by arith
    with Suc.prems have "i div 10 < 10 ^ Suc w" by simp
    from Suc.IH [OF this] False show ?thesis by (subst str_digits.simps) simp
  qed
qed

lemma length_str_digits_ge: "10 ^ w \<le> i \<Longrightarrow> w < length (str_digits i)"
proof (induction w arbitrary: i)
  case 0
  then show ?case using str_digits_nonempty [of i] by simp
next
  case (Suc w)
  have "k \<le> i div 10" if "10 * k \<le> i" for k :: int using that by arith
  with Suc.prems have n2: "10 ^ w \<le> i div 10" by simp
  have n1: "\<not> i < 10"
  proof
    assume "i < 10"
    then have "i div 10 \<le> 0" by arith
    moreover have "(0::int) < 10 ^ w" by (rule zero_less_power) simp
    ultimately show False using n2 by linarith
  qed
  from Suc.IH [OF n2] n1 show ?case by (subst str_digits.simps) simp
qed

lemma dec_val_zeros: "dec_val (replicate k CHR ''0'' @ s) = dec_val s"
proof -
  have "foldl (\<lambda>acc c. acc * 10 + digit_val c) 0 (replicate k CHR ''0'') = 0"
    by (induction k) (simp_all add: digit_val_def)
  then show ?thesis by (simp add: dec_val_def)
qed

lemma fmt_d_props:
  assumes "0 \<le> i" "i < 10 ^ w" "0 < w"
  shows "length (fmt_d w i) = w" "list_all is_digit (fmt_d w i)" "dec_val (fmt_d w i) = i"
proof -
  from assms(3) obtain w' where w: "w = Suc w'" by (cases w) simp_all
  from assms have "i < 10 ^ Suc w'" by (simp add: w)
  then have l: "length (str_digits i) \<le> w" unfolding w by (rule length_str_digits)
  from assms l show "length (fmt_d w i) = w" by (simp add: fmt_d_def)
  have "is_digit CHR ''0''" by (simp add: is_digit_def)
  with assms str_digits_digits [of i] show "list_all is_digit (fmt_d w i)"
    by (auto simp: fmt_d_def list_all_iff)
  from assms show "dec_val (fmt_d w i) = i"
    by (simp add: fmt_d_def dec_val_zeros dec_val_str_digits)
qed

lemma fmt_d_nonempty: "0 \<le> i \<Longrightarrow> fmt_d w i \<noteq> []"
  by (simp add: fmt_d_def str_digits_nonempty)

lemma py_int_fmt_d: "0 \<le> i \<Longrightarrow> i < 10 ^ w \<Longrightarrow> 0 < w \<Longrightarrow> py_int (fmt_d w i) = Inr i"
  using fmt_d_props [of i w] by (simp add: py_int_def fmt_d_nonempty)

lemma str_int_fmt_d4: "1000 \<le> i \<Longrightarrow> i \<le> 9999 \<Longrightarrow> str_int i = fmt_d 4 i"
proof -
  assume a: "1000 \<le> i" "i \<le> 9999"
  then have n: "10 ^ 3 \<le> i" "i < 10 ^ Suc 3" by simp_all
  have "3 < length (str_digits i)" using n(1) by (rule length_str_digits_ge)
  moreover have "length (str_digits i) \<le> Suc 3" using n(2) by (rule length_str_digits)
  ultimately have "length (str_digits i) = 4" by simp
  with a show ?thesis by (simp add: str_int_def fmt_d_def)
qed

subsection \<open>\<open>strptime\<close> after \<open>strftime\<close>\<close>

lemma read_digits_fmt_d:
  assumes "0 \<le> i" "i < 10 ^ w" "0 < w" "lo \<le> w" "\<not> is_digit c"
  shows "read_digits lo w (fmt_d w i @ c # rest) = Some (fmt_d w i, c # rest)"
proof -
  note p = fmt_d_props [OF assms(1,2,3)]
  have t: "takeWhile is_digit (fmt_d w i) = fmt_d w i"
    using p(2) by (simp add: list_all_iff)
  have tk: "take w (fmt_d w i @ c # rest) = fmt_d w i" using p(1) by simp
  show ?thesis unfolding read_digits_def Let_def tk t using p(1) assms(4) by simp
qed

lemma read_digits_fmt_d_end:
  assumes "0 \<le> i" "i < 10 ^ w" "0 < w" "lo \<le> w"
  shows "read_digits lo w (fmt_d w i) = Some (fmt_d w i, [])"
proof -
  note p = fmt_d_props [OF assms(1,2,3)]
  have t: "takeWhile is_digit (fmt_d w i) = fmt_d w i"
    using p(2) by (simp add: list_all_iff)
  have tk: "take w (fmt_d w i) = fmt_d w i" using p(1) by simp
  show ?thesis unfolding read_digits_def Let_def tk t using p(1) assms(4) by simp
qed

lemma year_text:
  assumes "representable pad t"
  shows "(if pad then fmt_d 4 (dt_year t) else str_int (dt_year t)) = fmt_d 4 (dt_year t)"
  using assms
  by (auto simp: representable_def valid_datetime_def valid_date_def str_int_fmt_d4)

lemma strptime_strftime:
  assumes "representable pad t"
  shows "strptime_iso (strftime_iso pad t) = Inr t"
proof -
  from assms have v: "valid_date (dt_year t) (dt_month t) (dt_day t)"
    "valid_time (dt_hour t) (dt_minute t) (dt_second t) (dt_microsecond t)"
    by (simp_all add: representable_def valid_datetime_def)
  have d31: "days_in_month y m \<le> 31" for y m by (simp add: days_in_month_def)
  from v(1) d31 [of "dt_year t" "dt_month t"]
  have y: "0 \<le> dt_year t" "dt_year t < 10 ^ 4" and m: "0 \<le> dt_month t" "dt_month t < 10 ^ 2"
    and d: "0 \<le> dt_day t" "dt_day t < 10 ^ 2"
    by (simp_all add: valid_date_def)
  from v(2) have h: "0 \<le> dt_hour t" "dt_hour t < 10 ^ 2"
    and mi: "0 \<le> dt_minute t" "dt_minute t < 10 ^ 2"
    and s: "0 \<le> dt_second t" "dt_second t < 10 ^ 2"
    and us: "0 \<le> dt_microsecond t" "dt_microsecond t < 10 ^ 6"
    by (simp_all add: valid_time_def)
  have nd: "\<not> is_digit CHR ''-''" "\<not> is_digit CHR ''T''" "\<not> is_digit CHR '':''" "\<not> is_digit CHR ''.''"
    by (simp_all add: is_digit_def)
  have r4: "read_digits 4 4 (fmt_d 4 (dt_year t) @ CHR ''-'' # rest)
              = Some (fmt_d 4 (dt_year t), CHR ''-'' # rest)" for rest
    by (rule read_digits_fmt_d [OF y _ _ nd(1)]) simp_all
  have r2: "read_digits (Suc 0) 2 (fmt_d 2 i @ c # rest) = Some (fmt_d 2 i, c # rest)"
    if "0 \<le> i" "i < 10 ^ 2" "\<not> is_digit c" for i c rest
    by (rule read_digits_fmt_d [OF that(1,2) _ _ that(3)]) simp_all
  have r6: "read_digits (Suc 0) 6 (fmt_d 6 (dt_microsecond t)) = Some (fmt_d 6 (dt_microsecond t), [])"
    by (rule read_digits_fmt_d_end [OF us]) simp_all
  have l6: "length (fmt_d 6 (dt_microsecond t)) = 6"
    by (rule fmt_d_props(1) [OF us]) simp
  have dv: "dec_val (fmt_d 4 (dt_year t)) = dt_year t" "dec_val (fmt_d 2 (dt_month t)) = dt_month t"
    "dec_val (fmt_d 2 (dt_day t)) = dt_day t" "dec_val (fmt_d 2 (dt_hour t)) = dt_hour t"
    "dec_val (fmt_d 2 (dt_minute t)) = dt_minute t" "dec_val (fmt_d 2 (dt_second t)) = dt_second t"
    "dec_val (fmt_d 6 (dt_microsecond t)) = dt_microsecond t"
    using fmt_d_props(3) [OF y] fmt_d_props(3) [OF m] fmt_d_props(3) [OF d] fmt_d_props(3) [OF h]
      fmt_d_props(3) [OF mi] fmt_d_props(3) [OF s] fmt_d_props(3) [OF us]
    by simp_all
  show ?thesis
    using v
    by (simp add: strptime_iso_def strftime_iso_def year_text [OF assms] r4
        r2 [OF m nd(1)] r2 [OF d nd(2)] r2 [OF h nd(3)] r2 [OF mi nd(3)] r2 [OF s nd(4)]
        r6 l6 dv read_char_def datetime_new_def)
qed

section \<open>The persisted cache\<close>

lemma update_fresh: "k \<notin> fst ` set al \<Longrightarrow> AList.update k v al = al @ [(k, v)]"
  by (induction al) auto

lemma dict_update_fresh:
  "distinct (map fst (d @ new)) \<Longrightarrow> dict_update d new = d @ new"
proof (induction new arbitrary: d)
  case Nil
  then show ?case by (simp add: dict_update_def)
next
  case (Cons x new)
  from Cons.prems have f: "fst x \<notin> fst ` set d" by auto
  from Cons.prems have "distinct (map fst ((d @ [x]) @ new))" by simp
  from Cons.IH [OF this] have "dict_update (d @ [x]) new = d @ x # new" by simp
  with f show ?case by (simp add: dict_update_def update_fresh)
qed

lemma parse_saved:
  "list_all (\<lambda>ft. representable pad (fst (snd ft)) \<and> representable pad (snd (snd ft))) cache \<Longrightarrow>
   parse_time_coverages
     (map (\<lambda>ft. (fst ft, strftime_iso pad (fst (snd ft)), strftime_iso pad (snd (snd ft)))) cache)
   = Inr cache"
  by (induction cache) (simp_all add: strptime_strftime)


text \<open>
  Claim C8. A cache is a dictionary, so every path is in it once. When all its
  timestamps are representable in the format, the file that \<open>save_time_coverages\<close>
  writes is read back by \<open>load_time_coverages\<close> into the same cache: into the dataset
  itself once its cache is emptied, and into any dataset that is constructed with the
  cache file. The paths, the start times and the end times are those that were saved.
\<close>

theorem cache_roundtrip:
  assumes "distinct (map fst (time_coverages_cache self))"
      and "list_all (\<lambda>ft. representable pad (fst (snd ft)) \<and> representable pad (snd (snd ft)))
             (time_coverages_cache self)"
  shows "load_time_coverages (self\<lparr>time_coverages_cache := []\<rparr>) (save_time_coverages pad self)
           = Inr self \<and>
         (\<exists>tab' d. Dataset_init tab oid fl h nm tc (Some (save_time_coverages pad self)) c
                      = Inr (tab', d) \<and>
                    time_coverages_cache d = time_coverages_cache self)"
proof -
  have p: "parse_time_coverages (save_time_coverages pad self) = Inr (time_coverages_cache self)"
    unfolding save_time_coverages_def by (rule parse_saved [OF assms(2)])
  have u: "dict_update [] (time_coverages_cache self) = time_coverages_cache self"
    using dict_update_fresh [of "[]" "time_coverages_cache self"] assms(1) by simp
  have "load_time_coverages (self\<lparr>time_coverages_cache := []\<rparr>) (save_time_coverages pad self)
           = Inr self"
    by (simp add: load_time_coverages_def p u)
  moreover have "\<exists>tab' d. Dataset_init tab oid fl h nm tc (Some (save_time_coverages pad self)) c
                      = Inr (tab', d) \<and>
                    time_coverages_cache d = time_coverages_cache self"
    by (simp add: Dataset_init_def Dataset_new_def set_name_def set_files_def
        load_time_coverages_def p u Let_def split: prod.splits)
  ultimately show ?thesis by simp
qed

theorem cache_roundtrip_witness:
  "distinct (map fst (time_coverages_cache cached_example)) \<and>
   list_all (\<lambda>ft. representable False (fst (snd ft)) \<and> representable False (snd (snd ft)))
     (time_coverages_cache cached_example) \<and>
   save_time_coverages False cached_example =
     [(''/dir/2017/11/12.nc'', ''2017-11-12T00:00:05.000250'', ''2017-11-13T00:00:00.000000''),
      (''/dir/9999/12/31.nc'', ''9999-12-31T00:00:00.000000'', ''9999-12-31T23:59:59.999999'')] \<and>
   load_time_coverages (cached_example\<lparr>time_coverages_cache := []\<rparr>)
     (save_time_coverages False cached_example) = Inr cached_example"
proof -
  have a: "distinct (map fst (time_coverages_cache cached_example))" by code_simp
  have b: "list_all (\<lambda>ft. representable False (fst (snd ft)) \<and> representable False (snd (snd ft)))
     (time_coverages_cache cached_example)" by code_simp
  have c: "save_time_coverages False cached_example =
     [(''/dir/2017/11/12.nc'', ''2017-11-12T00:00:05.000250'', ''2017-11-13T00:00:00.000000''),
      (''/dir/9999/12/31.nc'', ''9999-12-31T00:00:00.000000'', ''9999-12-31T23:59:59.999999'')]"
    by code_simp
  from cache_roundtrip [OF a b] show ?thesis using a b c by simp
qed


text \<open>
  Where the C library does not pad the year, a timestamp before the year 1000 is not
  representable: its text has a year of three digits, which \<open>strptime\<close> refuses.
\<close>

lemma unpadded_year_is_not_read_back:
  "strftime_iso False (midnight (999, 12, 31)) = ''999-12-31T00:00:00.000000'' \<and>
   strptime_iso (strftime_iso False (midnight (999, 12, 31))) = Inl ValueError"
  by code_simp

section \<open>The round trip of file names\<close>

subsection \<open>Times of day\<close>

lemma us_of_day_decode:
  assumes "0 \<le> r" "r < 86400000000"
  shows "valid_time (r div 3600000000) ((r div 60000000) mod 60) ((r div 1000000) mod 60)
           (r mod 1000000)"
    and "((r div 3600000000 * 60 + (r div 60000000) mod 60) * 60 + (r div 1000000) mod 60)
           * 1000000 + r mod 1000000 = r"
proof -
  define q1 where "q1 = r div 1000000"
  define q2 where "q2 = q1 div 60"
  have a: "r div 60000000 = q2" "r div 3600000000 = q2 div 60"
    using zdiv_zmult2_eq [where a = r and b = 1000000 and c = 60]
      zdiv_zmult2_eq [where a = r and b = 1000000 and c = 3600]
      zdiv_zmult2_eq [where a = "r div 1000000" and b = 60 and c = 60]
    by (simp_all add: q1_def q2_def)
  have b: "0 \<le> q1" "q1 < 86400" using assms by (simp_all add: q1_def) 
  then have c: "0 \<le> q2" "q2 < 1440" by (simp_all add: q2_def)
  then have d: "0 \<le> q2 div 60" "q2 div 60 < 24" by simp_all
  show "valid_time (r div 3600000000) ((r div 60000000) mod 60) ((r div 1000000) mod 60)
           (r mod 1000000)"
    using d by (simp add: valid_time_def a q1_def [symmetric])
  have "((q2 div 60 * 60 + q2 mod 60) * 60 + q1 mod 60) * 1000000 + r mod 1000000 = r"
    by (simp add: q2_def q1_def)
  then show "((r div 3600000000 * 60 + (r div 60000000) mod 60) * 60 + (r div 1000000) mod 60)
           * 1000000 + r mod 1000000 = r"
    by (simp add: a q1_def [symmetric])
qed

lemma us_of_day_range:
  "valid_time (dt_hour d) (dt_minute d) (dt_second d) (dt_microsecond d) \<Longrightarrow>
   0 \<le> us_of_day d \<and> us_of_day d < 86400000000"
  by (auto simp: valid_time_def us_of_day_def)

lemma time_less_us:
  assumes "valid_time h1 m1 s1 u1" "valid_time h2 m2 s2 u2"
      and "((h1 * 60 + m1) * 60 + s1) * 1000000 + u1 < ((h2 * 60 + m2) * 60 + s2) * 1000000 + u2"
  shows "(h1, m1, s1, u1) < (h2, m2, s2, u2)"
  using assms by (auto simp: valid_time_def)

lemma time_le_us:
  assumes "valid_time h1 m1 s1 u1" "valid_time h2 m2 s2 u2"
      and "((h1 * 60 + m1) * 60 + s1) * 1000000 + u1 \<le> ((h2 * 60 + m2) * 60 + s2) * 1000000 + u2"
  shows "(h1, m1, s1, u1) \<le> (h2, m2, s2, u2)"
  using assms by (auto simp: valid_time_def)

lemma next_day_later:
  assumes "valid_date y m d"
  shows "(y, m, d) < next_day (y, m, d) \<and> fst (next_day (y, m, d)) \<le> y + 1 \<and>
         1 \<le> fst (next_day (y, m, d))"
  using assms by (simp add: next_day_def valid_date_def)

lemma add_days_0: "add_days ymd 0 = ymd"
  by (simp add: add_days_def)

lemma add_days_1: "add_days ymd 1 = next_day ymd"
  by (simp add: add_days_def)

lemma dt_less_same_date:
  assumes "dt_year a = dt_year b" "dt_month a = dt_month b" "dt_day a = dt_day b"
      and "valid_time (dt_hour a) (dt_minute a) (dt_second a) (dt_microsecond a)"
      and "valid_time (dt_hour b) (dt_minute b) (dt_second b) (dt_microsecond b)"
      and "us_of_day a < us_of_day b"
  shows "dt_less a b"
proof -
  have "(dt_hour a, dt_minute a, dt_second a, dt_microsecond a)
          < (dt_hour b, dt_minute b, dt_second b, dt_microsecond b)"
    using assms(4,5) assms(6) [unfolded us_of_day_def] by (rule time_less_us)
  with assms(1-3) show ?thesis by (simp add: dt_less_def dt_key_def)
qed

lemma dt_le_same_date:
  assumes "dt_year a = dt_year b" "dt_month a = dt_month b" "dt_day a = dt_day b"
      and "valid_time (dt_hour a) (dt_minute a) (dt_second a) (dt_microsecond a)"
      and "valid_time (dt_hour b) (dt_minute b) (dt_second b) (dt_microsecond b)"
      and "us_of_day a \<le> us_of_day b"
  shows "dt_le a b"
proof -
  have "(dt_hour a, dt_minute a, dt_second a, dt_microsecond a)
          \<le> (dt_hour b, dt_minute b, dt_second b, dt_microsecond b)"
    using assms(4,5) assms(6) [unfolded us_of_day_def] by (rule time_le_us)
  with assms(1-3) show ?thesis by (simp add: dt_le_def dt_key_def)
qed

lemma dt_less_later_date:
  assumes "(dt_year a, dt_month a, dt_day a) < (dt_year b, dt_month b, dt_day b)"
  shows "dt_less a b"
  using assms by (auto simp: dt_less_def dt_key_def)

lemma dt_less_asym: "dt_less a b \<Longrightarrow> \<not> dt_less b a"
  by (simp add: dt_less_def not_less less_imp_le)

text \<open>The datetime with a given date and the time of day that is \<open>r\<close> microseconds.\<close>

lemma decoded_time:
  assumes "0 \<le> r" "r < 86400000000"
      and "e = \<lparr>dt_year = y, dt_month = m, dt_day = d, dt_hour = r div 3600000000,
                 dt_minute = (r div 60000000) mod 60, dt_second = (r div 1000000) mod 60,
                 dt_microsecond = r mod 1000000\<rparr>"
  shows "valid_time (dt_hour e) (dt_minute e) (dt_second e) (dt_microsecond e)"
    and "us_of_day e = r"
  using us_of_day_decode [OF assms(1,2)] by (simp_all add: assms(3) us_of_day_def)

lemma datetime_add_contains:
  assumes vs: "valid_datetime s" and vt: "valid_datetime t"
      and date: "dt_year t = dt_year s" "dt_month t = dt_month s" "dt_day t = dt_day s"
      and y: "dt_year s < 9999"
      and td: "0 < td" "td \<le> 86400000000"
      and lo: "us_of_day s \<le> us_of_day t" and hi: "us_of_day t < us_of_day s + td"
  shows "\<exists>e. datetime_add s td = Inr e \<and> dt_le s t \<and> dt_less t e \<and> \<not> dt_less e s"
proof -
  from vs have vds: "valid_date (dt_year s) (dt_month s) (dt_day s)"
    and vts: "valid_time (dt_hour s) (dt_minute s) (dt_second s) (dt_microsecond s)"
    by (simp_all add: valid_datetime_def)
  from vt have vtt: "valid_time (dt_hour t) (dt_minute t) (dt_second t) (dt_microsecond t)"
    by (simp add: valid_datetime_def)
  have le: "dt_le s t"
    using date [symmetric] vts vtt lo by (rule dt_le_same_date)
  define total where "total = us_of_day s + td"
  from us_of_day_range [OF vts] td have tot: "0 < total" "total < 2 * 86400000000"
    by (simp_all add: total_def)
  have hi': "us_of_day t < total" and lo': "us_of_day s < total"
    using hi td(1) by (simp_all add: total_def)
  show ?thesis
  proof (cases "total < 86400000000")
    case True
    with tot have dm: "total div 86400000000 = 0" "total mod 86400000000 = total" by simp_all
    from tot True have r: "0 \<le> total" "total < 86400000000" by simp_all
    define e where "e = \<lparr>dt_year = dt_year s, dt_month = dt_month s, dt_day = dt_day s,
                       dt_hour = total div 3600000000,
                       dt_minute = (total div 60000000) mod 60,
                       dt_second = (total div 1000000) mod 60,
                       dt_microsecond = total mod 1000000\<rparr>"
    note dec = decoded_time [OF r e_def]
    have ed: "dt_year e = dt_year s" "dt_month e = dt_month s" "dt_day e = dt_day s"
      by (simp_all add: e_def)
    have add: "datetime_add s td = Inr e"
      unfolding datetime_add_def Let_def total_def [symmetric] dm add_days_0 e_def
      using vds by (simp add: valid_date_def)
    have "dt_less t e"
      using date [unfolded ed [symmetric]] vtt dec(1) hi' [unfolded dec(2) [symmetric]]
      by (rule dt_less_same_date)
    moreover have "dt_less s e"
      using ed [symmetric] vts dec(1) lo' [unfolded dec(2) [symmetric]]
      by (rule dt_less_same_date)
    then have "\<not> dt_less e s" by (rule dt_less_asym)
    ultimately show ?thesis using add le by simp
  next
    case False
    with tot have dm: "total div 86400000000 = 1" by simp
    obtain y' m' d' where nd: "next_day (dt_year s, dt_month s, dt_day s) = (y', m', d')"
      by (cases "next_day (dt_year s, dt_month s, dt_day s)") auto
    from next_day_later [OF vds] nd y
    have later: "(dt_year s, dt_month s, dt_day s) < (y', m', d')" and yr: "1 \<le> y'" "y' \<le> 9999"
      by simp_all
    define r where "r = total mod 86400000000"
    define e where "e = \<lparr>dt_year = y', dt_month = m', dt_day = d',
                       dt_hour = r div 3600000000,
                       dt_minute = (r div 60000000) mod 60,
                       dt_second = (r div 1000000) mod 60,
                       dt_microsecond = r mod 1000000\<rparr>"
    have add: "datetime_add s td = Inr e"
      unfolding datetime_add_def Let_def total_def [symmetric] dm add_days_1 nd e_def r_def
      using yr by simp
    have l1: "(dt_year s, dt_month s, dt_day s) < (dt_year e, dt_month e, dt_day e)"
      using later by (simp add: e_def)
    then have "dt_less s e" by (rule dt_less_later_date)
    then have "\<not> dt_less e s" by (rule dt_less_asym)
    moreover have "dt_less t e" using l1 [unfolded date [symmetric]] by (rule dt_less_later_date)
    ultimately show ?thesis using add le by simp
  qed
qed

subsection \<open>The day of the year\<close>

lemma funpow_next_day_in_month:
  "d + int k \<le> days_in_month y m \<Longrightarrow> (next_day ^^ k) (y, m, d) = (y, m, d + int k)"
  by (induction k) (simp_all add: next_day_def)

lemma days_in_month_pos: "28 \<le> days_in_month y m"
  by (simp add: days_in_month_def)

lemma funpow_next_month:
  assumes "m < 12"
  shows "(next_day ^^ nat (days_in_month y m)) (y, m, 1) = (y, m + 1, 1)"
proof -
  obtain k where k: "nat (days_in_month y m) = Suc k" "int k = days_in_month y m - 1"
    using days_in_month_pos [of y m] by (cases "nat (days_in_month y m)") auto
  have "(next_day ^^ k) (y, m, 1) = (y, m, 1 + int k)"
    by (rule funpow_next_day_in_month) (simp add: k)
  with assms show ?thesis by (simp add: k next_day_def)
qed

lemma days_before_month_Suc:
  "1 \<le> m \<Longrightarrow> days_before_month y (m + 1) = days_before_month y m + days_in_month y m"
  by (simp add: days_before_month_def upto_rec2)

lemma days_before_month_nonneg: "0 \<le> days_before_month y m"
proof -
  have "0 \<le> days_in_month y x" for x using days_in_month_pos [of y x] by simp
  then show ?thesis unfolding days_before_month_def by (intro sum_list_nonneg) auto
qed

lemma to_first_of_month:
  "1 \<le> m \<Longrightarrow> m \<le> 12 \<longrightarrow> (next_day ^^ nat (days_before_month y m)) (y, 1, 1) = (y, m, 1)"
proof (induction m rule: int_ge_induct)
  case base
  show ?case by (simp add: days_before_month_def)
next
  case (step i)
  show ?case
  proof
    assume "i + 1 \<le> 12"
    with step have a: "(next_day ^^ nat (days_before_month y i)) (y, 1, 1) = (y, i, 1)"
      and i: "i < 12" by simp_all
    have "nat (days_before_month y (i + 1)) =
            nat (days_in_month y i) + nat (days_before_month y i)"
      using days_before_month_Suc [OF step.hyps] days_before_month_nonneg [of y i]
        days_in_month_pos [of y i] by simp
    then show "(next_day ^^ nat (days_before_month y (i + 1))) (y, 1, 1) = (y, i + 1, 1)"
      by (simp add: funpow_add a funpow_next_month [OF i])
  qed
qed

lemma add_days_doy:
  assumes "valid_date y m d"
  shows "add_days (y, 1, 1) (days_before_month y m + d - 1) = (y, m, d)"
proof -
  from assms have m: "1 \<le> m" "m \<le> 12" and d: "1 \<le> d" "d \<le> days_in_month y m"
    by (simp_all add: valid_date_def)
  have n: "nat (days_before_month y m + d - 1) = nat (d - 1) + nat (days_before_month y m)"
    using days_before_month_nonneg [of y m] d by simp
  have "(next_day ^^ nat (d - 1)) (y, m, 1) = (y, m, 1 + int (nat (d - 1)))"
    by (rule funpow_next_day_in_month) (use d in simp)
  then have "(next_day ^^ nat (d - 1)) (y, m, 1) = (y, m, d)" using d by simp
  with to_first_of_month [OF m(1), of y] m(2) n days_before_month_nonneg [of y m] d
  show ?thesis by (simp add: add_days_def funpow_add)
qed

lemma day_of_year_bounds:
  assumes "valid_date y m d"
  shows "1 \<le> days_before_month y m + d" "days_before_month y m + d \<le> 366"
proof -
  from assms have m: "1 \<le> m" "m \<le> 12" and d: "1 \<le> d" "d \<le> days_in_month y m"
    by (simp_all add: valid_date_def)
  show "1 \<le> days_before_month y m + d" using days_before_month_nonneg [of y m] d by simp
  from m have "m = 1 \<or> m = 2 \<or> m = 3 \<or> m = 4 \<or> m = 5 \<or> m = 6 \<or> m = 7 \<or> m = 8 \<or> m = 9 \<or>
               m = 10 \<or> m = 11 \<or> m = 12" by arith
  then have "days_before_month y m + days_in_month y m \<le> 366"
    by (elim disjE) (simp_all add: days_before_month_def days_in_month_def upto.simps)
  with d show "days_before_month y m + d \<le> 366" by simp
qed

lemma doy_to_month_day_roundtrip:
  assumes v: "valid_date y m d"
      and a: "map_of args ''year'' = Some y" "map_of args ''doy'' = Some (days_before_month y m + d)"
  shows "doy_to_month_day args =
           Inr (AList.delete ''doy'' (AList.update ''day'' d (AList.update ''month'' m args)))"
proof -
  from v have yr: "1 \<le> y" "y \<le> 9999" by (simp_all add: valid_date_def)
  have j: "datetime_new y 1 1 0 0 0 0 = Inr (midnight (y, 1, 1))"
    using yr by (simp add: datetime_new_def valid_date_def valid_time_def days_in_month_def
        midnight_def)
  have "datetime_add (midnight (y, 1, 1)) (timedelta_days (days_before_month y m + d - 1))
          = Inr (midnight (y, m, d))"
    using yr add_days_doy [OF v]
    by (simp add: datetime_add_def Let_def midnight_def us_of_day_def timedelta_days_def)
  then show ?thesis
    by (simp add: doy_to_month_day_def a j midnight_def)
qed

subsection \<open>The text of the placeholders\<close>

lemma last2_str_digits:
  assumes "10 \<le> y"
  shows "last2 (str_digits y) = [digit_char ((y div 10) mod 10), digit_char (y mod 10)]"
proof -
  have "\<exists>xs. str_digits (y div 10) = xs @ [digit_char ((y div 10) mod 10)]"
  proof (cases "y div 10 < 10")
    case True
    moreover from assms have "0 \<le> y div 10" by simp
    ultimately have "(y div 10) mod 10 = y div 10" by simp
    with True show ?thesis by (subst str_digits.simps) simp
  next
    case False
    then show ?thesis by (subst str_digits.simps) simp
  qed
  then obtain xs where "str_digits (y div 10) = xs @ [digit_char ((y div 10) mod 10)]" ..
  with assms have "str_digits y = xs @ [digit_char ((y div 10) mod 10), digit_char (y mod 10)]"
    by (subst str_digits.simps) simp
  then show ?thesis by (simp add: last2_def)
qed

lemma year2_text:
  assumes "1000 \<le> y" "y \<le> 9999"
  shows "length (last2 (str_int y)) = 2" "list_all is_digit (last2 (str_int y))"
        "py_int (last2 (str_int y)) = Inr (y mod 100)"
proof -
  from assms have l: "last2 (str_int y) = [digit_char ((y div 10) mod 10), digit_char (y mod 10)]"
    using last2_str_digits [of y] by (simp add: str_int_def)
  have b: "0 \<le> (y div 10) mod 10" "(y div 10) mod 10 < 10" "0 \<le> y mod 10" "y mod 10 < 10"
    by simp_all
  show "length (last2 (str_int y)) = 2" by (simp add: l)
  show d: "list_all is_digit (last2 (str_int y))"
    using b by (simp add: l is_digit_digit_char)
  have "10 * ((y div 10) mod 10) + y mod 10 = y mod 100"
    using zmod_zmult2_eq [where a = y and b = 10 and c = 10] by simp
  then have "dec_val (last2 (str_int y)) = y mod 100"
    using b by (simp add: l dec_val_def digit_val_digit_char)
  then show "py_int (last2 (str_int y)) = Inr (y mod 100)"
    using d by (simp add: py_int_def l)
qed

lemma padded_text:
  assumes "0 \<le> i" "i < 10 ^ w" "0 < w"
  shows "length (fmt_d w i) = w \<and> list_all is_digit (fmt_d w i) \<and> py_int (fmt_d w i) = Inr i"
  using fmt_d_props(1,2) [OF assms] py_int_fmt_d [OF assms] by simp

text \<open>
  What \<open>generate_filename\<close> writes for a placeholder of the start is a string of digits of
  the width that the regular expression of the placeholder asks for, and \<open>int\<close> reads the
  value of the placeholder from it.
\<close>

lemma placeholder_text:
  assumes v: "valid_datetime t" and y: "1000 \<le> dt_year t"
      and p: "p \<in> set start_placeholders"
  shows "\<exists>s w. map_of (format_args nm t t') p = Some s \<and> map_of placeholder p = Some (Digits w) \<and>
               length s = w \<and> list_all is_digit s \<and> py_int s = Inr (placeholder_value t p)"
proof -
  from v have vd: "valid_date (dt_year t) (dt_month t) (dt_day t)"
    and vt: "valid_time (dt_hour t) (dt_minute t) (dt_second t) (dt_microsecond t)"
    by (simp_all add: valid_datetime_def)
  have d31: "days_in_month (dt_year t) (dt_month t) \<le> 31" by (simp add: days_in_month_def)
  from vd have y9: "dt_year t \<le> 9999" by (simp add: valid_date_def)
  from p have "p = ''year'' \<or> p = ''year2'' \<or> p = ''month'' \<or> p = ''day'' \<or> p = ''doy'' \<or>
    p = ''hour'' \<or> p = ''minute'' \<or> p = ''second'' \<or> p = ''millisecond''"
    by (simp only: start_placeholders_def list.set insert_iff empty_iff simp_thms)
  then show ?thesis
  proof (elim disjE)
    assume 1: "p = ''year''"
    have "length (fmt_d 4 (dt_year t)) = 4 \<and> list_all is_digit (fmt_d 4 (dt_year t)) \<and>
          py_int (fmt_d 4 (dt_year t)) = Inr (dt_year t)"
      by (rule padded_text) (use y y9 in simp_all)
    with 1 show ?thesis
      by (simp add: format_args_def placeholder_def placeholder_value_def
          str_int_fmt_d4 [OF y y9])
  next
    assume 2: "p = ''year2''"
    with year2_text [OF y y9] show ?thesis
      by (simp add: format_args_def placeholder_def placeholder_value_def)
  next
    assume 3: "p = ''month''"
    have "length (fmt_d 2 (dt_month t)) = 2 \<and> list_all is_digit (fmt_d 2 (dt_month t)) \<and>
          py_int (fmt_d 2 (dt_month t)) = Inr (dt_month t)"
      by (rule padded_text) (use vd in \<open>simp_all add: valid_date_def\<close>)
    with 3 show ?thesis
      by (simp add: format_args_def placeholder_def placeholder_value_def)
  next
    assume 4: "p = ''day''"
    have "length (fmt_d 2 (dt_day t)) = 2 \<and> list_all is_digit (fmt_d 2 (dt_day t)) \<and>
          py_int (fmt_d 2 (dt_day t)) = Inr (dt_day t)"
      by (rule padded_text) (use vd d31 in \<open>simp_all add: valid_date_def\<close>)
    with 4 show ?thesis
      by (simp add: format_args_def placeholder_def placeholder_value_def)
  next
    assume 5: "p = ''doy''"
    have "length (fmt_d 3 (day_of_year t)) = 3 \<and> list_all is_digit (fmt_d 3 (day_of_year t)) \<and>
          py_int (fmt_d 3 (day_of_year t)) = Inr (day_of_year t)"
      by (rule padded_text) (use day_of_year_bounds [OF vd] in \<open>simp_all add: day_of_year_def\<close>)
    with 5 show ?thesis
      by (simp add: format_args_def placeholder_def placeholder_value_def)
  next
    assume 6: "p = ''hour''"
    have "length (fmt_d 2 (dt_hour t)) = 2 \<and> list_all is_digit (fmt_d 2 (dt_hour t)) \<and>
          py_int (fmt_d 2 (dt_hour t)) = Inr (dt_hour t)"
      by (rule padded_text) (use vt in \<open>simp_all add: valid_time_def\<close>)
    with 6 show ?thesis
      by (simp add: format_args_def placeholder_def placeholder_value_def)
  next
    assume 7: "p = ''minute''"
    have "length (fmt_d 2 (dt_minute t)) = 2 \<and> list_all is_digit (fmt_d 2 (dt_minute t)) \<and>
          py_int (fmt_d 2 (dt_minute t)) = Inr (dt_minute t)"
      by (rule padded_text) (use vt in \<open>simp_all add: valid_time_def\<close>)
    with 7 show ?thesis
      by (simp add: format_args_def placeholder_def placeholder_value_def)
  next
    assume 8: "p = ''second''"
    have "length (fmt_d 2 (dt_second t)) = 2 \<and> list_all is_digit (fmt_d 2 (dt_second t)) \<and>
          py_int (fmt_d 2 (dt_second t)) = Inr (dt_second t)"
      by (rule padded_text) (use vt in \<open>simp_all add: valid_time_def\<close>)
    with 8 show ?thesis
      by (simp add: format_args_def placeholder_def placeholder_value_def)
  next
    assume 9: "p = ''millisecond''"
    have "length (fmt_d 3 (dt_microsecond t div 1000)) = 3 \<and>
          list_all is_digit (fmt_d 3 (dt_microsecond t div 1000)) \<and>
          py_int (fmt_d 3 (dt_microsecond t div 1000)) = Inr (dt_microsecond t div 1000)"
    proof (rule padded_text)
      from vt have u: "0 \<le> dt_microsecond t" "dt_microsecond t < 1000000"
        by (simp_all add: valid_time_def)
      from u(1) show "0 \<le> dt_microsecond t div 1000" by simp
      from u(2) have "dt_microsecond t div 1000 < 1000" by arith
      then show "dt_microsecond t div 1000 < 10 ^ 3" by simp
    qed simp
    with 9 show ?thesis
      by (simp add: format_args_def placeholder_def placeholder_value_def)
  qed
qed

subsection \<open>The generated file name matches its template\<close>

lemma compile_fill_match:
  assumes g: "\<And>p. PH p \<in> set toks \<Longrightarrow>
                \<exists>s w. map_of kw p = Some s \<and> map_of tab p = Some (Digits w) \<and>
                      length s = w \<and> list_all is_digit s"
      and l: "\<And>c. Lit c \<in> set toks \<Longrightarrow> c \<noteq> CHR ''*''"
      and s: "Star \<notin> set toks"
  shows "\<exists>r f. re_compile tab toks = Inr r \<and> fill_template kw toks = Inr f \<and>
           (\<forall>rest. re_match r (f @ rest) =
              Some (f, map (\<lambda>p. case map_of kw p of None \<Rightarrow> [] | Some s \<Rightarrow> s)
                         (placeholders_of toks)))"
  using assms
proof (induction toks)
  case Nil
  then show ?case by simp
next
  case (Cons t toks)
  from Cons.prems have "\<exists>r f. re_compile tab toks = Inr r \<and> fill_template kw toks = Inr f \<and>
           (\<forall>rest. re_match r (f @ rest) =
              Some (f, map (\<lambda>p. case map_of kw p of None \<Rightarrow> [] | Some s \<Rightarrow> s)
                         (placeholders_of toks)))"
    by (intro Cons.IH) auto
  then obtain r f where r: "re_compile tab toks = Inr r" and f: "fill_template kw toks = Inr f"
    and m: "\<And>rest. re_match r (f @ rest) =
              Some (f, map (\<lambda>p. case map_of kw p of None \<Rightarrow> [] | Some s \<Rightarrow> s)
                         (placeholders_of toks))"
    by blast
  show ?case
  proof (cases t)
    case (Lit c)
    with Cons.prems(2) [of c] have c: "c \<noteq> CHR ''*''" by simp
    show ?thesis
    proof (cases "c = CHR ''.''")
      case True
      with Lit r f m show ?thesis by (simp add: atom_of_char_def)
    next
      case False
      with Lit c r f m show ?thesis by (simp add: atom_of_char_def)
    qed
  next
    case (PH p)
    with Cons.prems(1) [of p] obtain s where s: "map_of kw p = Some s"
      "map_of tab p = Some (Digits (length s))" "list_all is_digit s"
      by auto
    have "re_match (RDigits (length s) # r) (s @ f @ rest) =
            Some (s @ f, s # map (\<lambda>p. case map_of kw p of None \<Rightarrow> [] | Some s \<Rightarrow> s)
                                   (placeholders_of toks))" for rest
      using s(3) m [of rest] by simp
    with PH s r f show ?thesis by simp
  next
    case Star
    with Cons.prems(3) show ?thesis by simp
  qed
qed

lemma re_search_first: "re_match r s = Some res \<Longrightarrow> re_search r s = Some res"
  by (cases s) simp_all

subsection \<open>The date arguments of a generated file name\<close>

lemma loop_on_tuple:
  assumes "\<And>p. p \<in> set phs \<Longrightarrow> py_int (g p) = Inr (val p)"
  shows "create_date_loop pre ex (VTuple (gs0 @ map g phs)) (enumerate (length gs0) phs) a =
           Inr (fold (\<lambda>p. date_args_step pre ex p (val p)) phs a)"
  using assms
proof (induction phs arbitrary: gs0 a)
  case Nil
  then show ?case by simp
next
  case (Cons p phs)
  have i: "values_index (VTuple (gs0 @ g p # map g phs)) (length gs0) = Inr (g p)"
    by (simp add: values_index_def)
  have "create_date_loop pre ex (VTuple ((gs0 @ [g p]) @ map g phs))
          (enumerate (length (gs0 @ [g p])) phs) (date_args_step pre ex p (val p) a) =
        Inr (fold (\<lambda>p. date_args_step pre ex p (val p)) phs (date_args_step pre ex p (val p) a))"
    by (rule Cons.IH) (use Cons.prems in simp)
  with i Cons.prems [of p] show ?case by simp
qed

lemma start_placeholder_cases:
  assumes "p \<in> set start_placeholders"
  shows "p = ''year'' \<or> p = ''year2'' \<or> p = ''month'' \<or> p = ''day'' \<or> p = ''doy'' \<or>
         p = ''hour'' \<or> p = ''minute'' \<or> p = ''second'' \<or> p = ''millisecond''"
  using assms by (simp only: start_placeholders_def list.set insert_iff empty_iff simp_thms)

lemma year2_rule_inverse:
  assumes "1965 \<le> y" "y \<le> 2064"
  shows "(if y mod 100 < 65 then 2000 + y mod 100 else 1900 + y mod 100) = (y :: int)"
proof (cases "y < 2000")
  case True
  with assms have "(y - 1900) mod 100 = y - 1900" by simp
  moreover have "(y - 1900) mod 100 = y mod 100"
    using mod_diff_eq [of y 100 1900] by simp
  ultimately have "y mod 100 = y - 1900" by simp
  with assms True show ?thesis by simp
next
  case False
  with assms have "(y - 2000) mod 100 = y - 2000" by simp
  moreover have "(y - 2000) mod 100 = y mod 100"
    using mod_diff_eq [of y 100 2000] by simp
  ultimately have "y mod 100 = y - 2000" by simp
  with assms False show ?thesis by simp
qed

lemma start_step:
  assumes p: "p \<in> set start_placeholders"
      and y2: "p = ''year2'' \<Longrightarrow> 1965 \<le> dt_year t \<and> dt_year t \<le> 2064"
  shows "date_args_step [] (Some ''end_'') p (placeholder_value t p) a =
           AList.update (date_key p) (date_value t (date_key p)) a"
  using start_placeholder_cases [OF p]
proof (elim disjE)
  assume "p = ''year2''"
  with y2 year2_rule_inverse [of "dt_year t"] show ?thesis
    by (simp add: date_args_step_def placeholder_value_def date_key_def date_value_def)
qed (simp_all add: date_args_step_def placeholder_value_def date_key_def date_value_def
       startswith_def)

lemma end_step:
  assumes p: "p \<in> set start_placeholders"
  shows "date_args_step ''end_'' None p v a = a"
  using start_placeholder_cases [OF p]
  by (elim disjE) (simp_all add: date_args_step_def startswith_def)

lemma fold_end_steps:
  "set phs \<subseteq> set start_placeholders \<Longrightarrow>
   fold (\<lambda>p. date_args_step ''end_'' None p (val p)) phs a = a"
  by (induction phs arbitrary: a) (simp_all add: end_step)

lemma fold_start_steps:
  assumes "set phs \<subseteq> set start_placeholders"
      and "''year2'' \<in> set phs \<Longrightarrow> 1965 \<le> dt_year t \<and> dt_year t \<le> 2064"
  shows "map_of (fold (\<lambda>p. date_args_step [] (Some ''end_'') p (placeholder_value t p)) phs a) k =
           (if k \<in> date_key ` set phs then Some (date_value t k) else map_of a k)"
  using assms
proof (induction phs arbitrary: a)
  case Nil
  then show ?case by simp
next
  case (Cons p phs)
  have st: "date_args_step [] (Some ''end_'') p (placeholder_value t p) a =
              AList.update (date_key p) (date_value t (date_key p)) a"
    by (rule start_step) (use Cons.prems in auto)
  have "map_of (fold (\<lambda>p. date_args_step [] (Some ''end_'') p (placeholder_value t p)) phs
                  (AList.update (date_key p) (date_value t (date_key p)) a)) k =
          (if k \<in> date_key ` set phs then Some (date_value t k)
           else map_of (AList.update (date_key p) (date_value t (date_key p)) a) k)"
    by (rule Cons.IH) (use Cons.prems in auto)
  then show ?case by (simp add: st update_conv')
qed

lemma plain_tokens:
  assumes "list_all plain_token toks"
  shows "set (placeholders_of toks) \<subseteq> set start_placeholders" "Star \<notin> set toks"
        "\<And>c. Lit c \<in> set toks \<Longrightarrow> c \<noteq> CHR ''*''"
        "\<And>p. PH p \<in> set toks \<Longrightarrow> p \<in> set (placeholders_of toks)"
proof -
  from assms show "set (placeholders_of toks) \<subseteq> set start_placeholders"
    by (induction toks rule: placeholders_of.induct) auto
  from assms show "Star \<notin> set toks"
    by (induction toks rule: placeholders_of.induct) auto
  show "c \<noteq> CHR ''*''" if "Lit c \<in> set toks" for c
  proof -
    from assms that have "plain_token (Lit c)" unfolding list_all_iff by blast
    then have "plain_char c" by simp
    then show ?thesis by (simp add: plain_char_def)
  qed
  show "p \<in> set (placeholders_of toks)" if "PH p \<in> set toks" for p
    using that by (induction toks rule: placeholders_of.induct) auto
qed

lemma standard_table_entry:
  assumes "standard_table tab0" "p \<in> set start_placeholders"
  shows "map_of (AList.update ''name'' v tab0) p = map_of placeholder p"
proof -
  from assms(2) have n: "p \<noteq> ''name''"
    using start_placeholder_cases [of p] by auto
  from assms(2) obtain pat where pat: "map_of placeholder p = Some pat"
    using start_placeholder_cases [of p] by (auto simp: placeholder_def)
  then have "(p, pat) \<in> set placeholder" by (rule map_of_SomeD)
  with assms(1) n have "map_of tab0 p = Some pat"
    by (auto simp: standard_table_def list_all_iff)
  with n pat show ?thesis by (simp add: update_conv')
qed

lemma two_placeholders:
  assumes "a \<in> set phs" "b \<in> set phs" "a \<noteq> b"
  shows "\<exists>x y zs. phs = x # y # zs"
proof (cases phs)
  case Nil
  with assms show ?thesis by simp
next
  case (Cons x xs)
  with assms show ?thesis by (cases xs) auto
qed

lemma keys_from_map_of:
  assumes "\<And>k. map_of d k \<noteq> None \<Longrightarrow> k \<in> S"
  shows "list_all (\<lambda>kv. fst kv \<in> S) d"
proof -
  have "fst kv \<in> S" if "kv \<in> set d" for kv
  proof -
    from that have "(fst kv, snd kv) \<in> set d" by simp
    then have "\<exists>x. map_of d (fst kv) = Some x" by (rule weak_map_of_SomeI)
    then show ?thesis using assms [of "fst kv"] by auto
  qed
  then show ?thesis by (simp add: list_all_iff)
qed

lemma date_key_eq:
  "date_key p = ''year'' \<longleftrightarrow> p = ''year'' \<or> p = ''year2''"
  "date_key p = ''month'' \<longleftrightarrow> p = ''month''"
  "date_key p = ''day'' \<longleftrightarrow> p = ''day''"
  "date_key p = ''doy'' \<longleftrightarrow> p = ''doy''"
  "date_key p = ''hour'' \<longleftrightarrow> p = ''hour''"
  "date_key p = ''minute'' \<longleftrightarrow> p = ''minute''"
  "date_key p = ''second'' \<longleftrightarrow> p = ''second''"
  "date_key p = ''microsecond'' \<longleftrightarrow> p = ''millisecond'' \<or> p = ''microsecond''"
proof -
  consider "p = ''year2''" | "p = ''millisecond''" | "p \<noteq> ''year2''" "p \<noteq> ''millisecond''"
    by blast
  then show
    "date_key p = ''year'' \<longleftrightarrow> p = ''year'' \<or> p = ''year2''"
    "date_key p = ''month'' \<longleftrightarrow> p = ''month''"
    "date_key p = ''day'' \<longleftrightarrow> p = ''day''"
    "date_key p = ''doy'' \<longleftrightarrow> p = ''doy''"
    "date_key p = ''hour'' \<longleftrightarrow> p = ''hour''"
    "date_key p = ''minute'' \<longleftrightarrow> p = ''minute''"
    "date_key p = ''second'' \<longleftrightarrow> p = ''second''"
    "date_key p = ''microsecond'' \<longleftrightarrow> p = ''millisecond'' \<or> p = ''microsecond''"
    by cases (simp_all add: date_key_def)
qed

lemma in_image_iff: "k \<in> f ` A \<longleftrightarrow> (\<exists>p\<in>A. f p = k)"
  by (simp add: image_iff eq_commute)

lemma date_key_image:
  assumes "set phs \<subseteq> set start_placeholders"
  shows "''year'' \<in> date_key ` set phs \<longleftrightarrow> ''year'' \<in> set phs \<or> ''year2'' \<in> set phs"
    and "''month'' \<in> date_key ` set phs \<longleftrightarrow> ''month'' \<in> set phs"
    and "''day'' \<in> date_key ` set phs \<longleftrightarrow> ''day'' \<in> set phs"
    and "''doy'' \<in> date_key ` set phs \<longleftrightarrow> ''doy'' \<in> set phs"
    and "''hour'' \<in> date_key ` set phs \<longleftrightarrow> ''hour'' \<in> set phs"
    and "''minute'' \<in> date_key ` set phs \<longleftrightarrow> ''minute'' \<in> set phs"
    and "''second'' \<in> date_key ` set phs \<longleftrightarrow> ''second'' \<in> set phs"
    and "''microsecond'' \<in> date_key ` set phs \<longleftrightarrow> ''millisecond'' \<in> set phs"
proof -
  show "''year'' \<in> date_key ` set phs \<longleftrightarrow> ''year'' \<in> set phs \<or> ''year2'' \<in> set phs"
    unfolding in_image_iff date_key_eq by blast
  show "''month'' \<in> date_key ` set phs \<longleftrightarrow> ''month'' \<in> set phs"
    unfolding in_image_iff date_key_eq by blast
  show "''day'' \<in> date_key ` set phs \<longleftrightarrow> ''day'' \<in> set phs"
    unfolding in_image_iff date_key_eq by blast
  show "''doy'' \<in> date_key ` set phs \<longleftrightarrow> ''doy'' \<in> set phs"
    unfolding in_image_iff date_key_eq by blast
  show "''hour'' \<in> date_key ` set phs \<longleftrightarrow> ''hour'' \<in> set phs"
    unfolding in_image_iff date_key_eq by blast
  show "''minute'' \<in> date_key ` set phs \<longleftrightarrow> ''minute'' \<in> set phs"
    unfolding in_image_iff date_key_eq by blast
  show "''second'' \<in> date_key ` set phs \<longleftrightarrow> ''second'' \<in> set phs"
    unfolding in_image_iff date_key_eq by blast
  have "''microsecond'' \<notin> set phs"
  proof
    assume "''microsecond'' \<in> set phs"
    with assms have "''microsecond'' \<in> set start_placeholders" by blast
    then show False by (simp add: start_placeholders_def)
  qed
  then show "''microsecond'' \<in> date_key ` set phs \<longleftrightarrow> ''millisecond'' \<in> set phs"
    unfolding in_image_iff date_key_eq by blast
qed

lemma date_key_field:
  assumes "p \<in> set start_placeholders"
  shows "date_key p \<in> set datetime_fields \<or> date_key p = ''doy''"
  using start_placeholder_cases [OF assms]
  by (elim disjE) (simp_all add: date_key_def datetime_fields_def)

lemma date_value_simps:
  "date_value t ''year'' = dt_year t" "date_value t ''month'' = dt_month t"
  "date_value t ''day'' = dt_day t" "date_value t ''doy'' = day_of_year t"
  "date_value t ''hour'' = dt_hour t" "date_value t ''minute'' = dt_minute t"
  "date_value t ''second'' = dt_second t"
  "date_value t ''microsecond'' = dt_microsecond t div 1000 * 1000"
  by (simp_all add: date_value_def)

lemma start_args_of_generated:
  assumes sub: "set phs \<subseteq> set start_placeholders"
      and vals: "\<And>p. p \<in> set phs \<Longrightarrow> py_int (g p) = Inr (placeholder_value t p)"
      and y2: "''year2'' \<in> set phs \<Longrightarrow> 1965 \<le> dt_year t \<and> dt_year t \<le> 2064"
      and yr: "''year'' \<in> set phs \<or> ''year2'' \<in> set phs"
      and dy: "''doy'' \<in> set phs \<or> ''month'' \<in> set phs \<and> ''day'' \<in> set phs"
      and v: "valid_datetime t"
  shows "\<exists>sa.
           create_date_from_placeholders phs (VTuple (map g phs)) None (Some ''end_'') None
             = Inr sa \<and>
           create_date_from_placeholders phs (VTuple (map g phs)) (Some ''end_'') None (Some sa)
             = Inr sa \<and>
           map_of sa ''year'' = Some (dt_year t) \<and>
           map_of sa ''month'' = Some (dt_month t) \<and>
           map_of sa ''day'' = Some (dt_day t) \<and>
           map_of sa ''hour'' = (if ''hour'' \<in> set phs then Some (dt_hour t) else None) \<and>
           map_of sa ''minute'' = (if ''minute'' \<in> set phs then Some (dt_minute t) else None) \<and>
           map_of sa ''second'' = (if ''second'' \<in> set phs then Some (dt_second t) else None) \<and>
           map_of sa ''microsecond'' =
             (if ''millisecond'' \<in> set phs then Some (dt_microsecond t div 1000 * 1000)
              else None) \<and>
           (\<forall>k. map_of sa k \<noteq> None \<longrightarrow> k \<in> set datetime_fields)"
proof -
  define a1 where
    "a1 = fold (\<lambda>p. date_args_step [] (Some ''end_'') p (placeholder_value t p)) phs []"
  have loop1: "create_date_loop [] (Some ''end_'') (VTuple (map g phs)) (enumerate 0 phs) [] =
                 Inr a1"
    using loop_on_tuple [of phs g "placeholder_value t" "[]" "Some ''end_''" "[]" "[]"] vals
    by (simp add: a1_def)
  have loop2: "create_date_loop ''end_'' None (VTuple (map g phs)) (enumerate 0 phs) sa =
                 Inr sa" for sa
    using loop_on_tuple [of phs g "placeholder_value t" "''end_''" None "[]" sa] vals
    by (simp add: fold_end_steps [OF sub])
  have noend: "''end_doy'' \<notin> set phs"
  proof
    assume "''end_doy'' \<in> set phs"
    with sub have "''end_doy'' \<in> set start_placeholders" by blast
    then show False by (simp add: start_placeholders_def)
  qed
  have m1: "map_of a1 k = (if k \<in> date_key ` set phs then Some (date_value t k) else None)"
    for k
    unfolding a1_def using fold_start_steps [OF sub y2, of "[]" k] by simp
  note img = date_key_image [OF sub]
  have fld: "k \<in> set datetime_fields \<or> k = ''doy''" if "k \<in> date_key ` set phs" for k
  proof -
    from that obtain p where "p \<in> set phs" "k = date_key p" by blast
    with sub date_key_field [of p] show ?thesis by blast
  qed
  have e2: "create_date_from_placeholders phs (VTuple (map g phs)) (Some ''end_'') None (Some sa)
              = Inr sa" for sa
    using noend by (simp add: create_date_from_placeholders_def loop2)
  show ?thesis
  proof (cases "''doy'' \<in> set phs")
    case True
    from v have vd: "valid_date (dt_year t) (dt_month t) (dt_day t)"
      by (simp add: valid_datetime_def)
    have y: "map_of a1 ''year'' = Some (dt_year t)"
      using yr by (simp add: m1 img date_value_simps)
    have d: "map_of a1 ''doy'' = Some (days_before_month (dt_year t) (dt_month t) + dt_day t)"
      using True by (simp add: m1 img date_value_simps day_of_year_def)
    define sa where "sa = AList.delete ''doy'' (AList.update ''day'' (dt_day t)
                             (AList.update ''month'' (dt_month t) a1))"
    have dm: "doy_to_month_day a1 = Inr sa"
      unfolding sa_def by (rule doy_to_month_day_roundtrip [OF vd y d])
    have e1: "create_date_from_placeholders phs (VTuple (map g phs)) None (Some ''end_'') None
                = Inr sa"
      using True by (simp add: create_date_from_placeholders_def loop1 dm)
    have ms: "map_of sa k = (if k = ''doy'' then None
                             else if k = ''day'' then Some (dt_day t)
                             else if k = ''month'' then Some (dt_month t)
                             else map_of a1 k)" for k
      by (simp add: sa_def delete_conv' update_conv')
    have keys: "k \<in> set datetime_fields" if "map_of sa k \<noteq> None" for k
    proof (cases "k = ''doy'' \<or> k = ''day'' \<or> k = ''month''")
      case True
      then show ?thesis
      proof (elim disjE)
        assume "k = ''doy''"
        with that show ?thesis by (simp add: ms)
      next
        assume "k = ''day''"
        then show ?thesis by (simp add: datetime_fields_def)
      next
        assume "k = ''month''"
        then show ?thesis by (simp add: datetime_fields_def)
      qed
    next
      case False
      with that have "map_of a1 k \<noteq> None" by (simp add: ms)
      then have "k \<in> date_key ` set phs" by (simp add: m1 split: if_splits)
      with fld [of k] False show ?thesis by simp
    qed
    have f1: "map_of sa ''year'' = Some (dt_year t)" by (simp add: ms y)
    have f2: "map_of sa ''month'' = Some (dt_month t)" by (simp add: ms)
    have f3: "map_of sa ''day'' = Some (dt_day t)" by (simp add: ms)
    have f4: "map_of sa ''hour'' = (if ''hour'' \<in> set phs then Some (dt_hour t) else None)"
      by (simp add: ms m1 img date_value_simps)
    have f5: "map_of sa ''minute'' =
                     (if ''minute'' \<in> set phs then Some (dt_minute t) else None)"
      by (simp add: ms m1 img date_value_simps)
    have f6: "map_of sa ''second'' =
                     (if ''second'' \<in> set phs then Some (dt_second t) else None)"
      by (simp add: ms m1 img date_value_simps)
    have f7: "map_of sa ''microsecond'' =
             (if ''millisecond'' \<in> set phs then Some (dt_microsecond t div 1000 * 1000)
              else None)"
      by (simp add: ms m1 img date_value_simps)
    show ?thesis
      apply (rule exI [of _ sa])
      apply (intro conjI allI impI)
               apply (rule e1)
              apply (rule e2)
             apply (rule f1)
            apply (rule f2)
           apply (rule f3)
          apply (rule f4)
         apply (rule f5)
        apply (rule f6)
       apply (rule f7)
      apply (erule keys)
      done
  next
    case False
    with dy have md: "''month'' \<in> set phs" "''day'' \<in> set phs" by simp_all
    have e1: "create_date_from_placeholders phs (VTuple (map g phs)) None (Some ''end_'') None
                = Inr a1"
      using False by (simp add: create_date_from_placeholders_def loop1)
    have keys: "k \<in> set datetime_fields" if "map_of a1 k \<noteq> None" for k
    proof -
      from that have k: "k \<in> date_key ` set phs" by (simp add: m1 split: if_splits)
      have "k \<noteq> ''doy''"
      proof
        assume "k = ''doy''"
        with k img(4) False show False by simp
      qed
      with fld [OF k] show ?thesis by simp
    qed
    have f1: "map_of a1 ''year'' = Some (dt_year t)"
      using yr by (simp add: m1 img date_value_simps)
    have f2: "map_of a1 ''month'' = Some (dt_month t)"
      using md by (simp add: m1 img date_value_simps)
    have f3: "map_of a1 ''day'' = Some (dt_day t)"
      using md by (simp add: m1 img date_value_simps)
    have f4: "map_of a1 ''hour'' = (if ''hour'' \<in> set phs then Some (dt_hour t) else None)"
      by (simp add: m1 img date_value_simps)
    have f5: "map_of a1 ''minute'' =
                     (if ''minute'' \<in> set phs then Some (dt_minute t) else None)"
      by (simp add: m1 img date_value_simps)
    have f6: "map_of a1 ''second'' =
                     (if ''second'' \<in> set phs then Some (dt_second t) else None)"
      by (simp add: m1 img date_value_simps)
    have f7: "map_of a1 ''microsecond'' =
             (if ''millisecond'' \<in> set phs then Some (dt_microsecond t div 1000 * 1000)
              else None)"
      by (simp add: m1 img date_value_simps)
    show ?thesis
      apply (rule exI [of _ a1])
      apply (intro conjI allI impI)
               apply (rule e1)
              apply (rule e2)
             apply (rule f1)
            apply (rule f2)
           apply (rule f3)
          apply (rule f4)
         apply (rule f5)
        apply (rule f6)
       apply (rule f7)
      apply (erule keys)
      done
  qed
qed

subsection \<open>The interval of the date arguments\<close>

lemma interval_of_start_args:
  fixes H M S MS :: bool
  assumes v: "valid_datetime t" and y9: "dt_year t < 9999"
      and my: "map_of sa ''year'' = Some (dt_year t)"
      and mm: "map_of sa ''month'' = Some (dt_month t)"
      and md: "map_of sa ''day'' = Some (dt_day t)"
      and mh: "map_of sa ''hour'' = (if H then Some (dt_hour t) else None)"
      and mi: "map_of sa ''minute'' = (if M then Some (dt_minute t) else None)"
      and ms: "map_of sa ''second'' = (if S then Some (dt_second t) else None)"
      and mu: "map_of sa ''microsecond'' =
                 (if MS then Some (dt_microsecond t div 1000 * 1000) else None)"
      and keys: "\<And>k. map_of sa k \<noteq> None \<Longrightarrow> k \<in> set datetime_fields"
      and c1: "M \<Longrightarrow> H" and c2: "S \<Longrightarrow> M" and c3: "MS \<Longrightarrow> S"
  shows "\<exists>s td e. datetime_kw sa = Inr s \<and> get_time_resolution sa = Some td \<and>
           datetime_add s td = Inr e \<and> dt_le s t \<and> dt_less t e \<and> \<not> dt_less e s"
proof -
  from v have vd: "valid_date (dt_year t) (dt_month t) (dt_day t)"
    and vt: "valid_time (dt_hour t) (dt_minute t) (dt_second t) (dt_microsecond t)"
    by (simp_all add: valid_datetime_def)
  define u where "u = dt_microsecond t"
  define u0 where "u0 = u div 1000 * 1000"
  have "u0 + u mod 1000 = u" by (simp add: u0_def)
  moreover have "0 \<le> u mod 1000" "u mod 1000 < 1000" by simp_all
  moreover from vt have u_nonneg: "0 \<le> u" and "u < 1000000"
    by (simp_all add: valid_time_def u_def)
  moreover from u_nonneg have "0 \<le> u0" by (simp add: u0_def)
  ultimately have us: "0 \<le> u0" "u0 \<le> u" "u < u0 + 1000" "u0 < 1000000" "0 \<le> u"
    "u < 1000000" by linarith+
  define h' where "h' = (if H then dt_hour t else 0)"
  define m' where "m' = (if M then dt_minute t else 0)"
  define s' where "s' = (if S then dt_second t else 0)"
  define u' where "u' = (if MS then u0 else 0)"
  define s where
    "s = \<lparr>dt_year = dt_year t, dt_month = dt_month t, dt_day = dt_day t,
          dt_hour = h', dt_minute = m', dt_second = s', dt_microsecond = u'\<rparr>"
  have vts': "valid_time h' m' s' u'"
    using vt us by (simp add: h'_def m'_def s'_def u'_def valid_time_def)
  then have vts: "valid_time (dt_hour s) (dt_minute s) (dt_second s) (dt_microsecond s)"
    by (simp add: s_def)
  with vd have vs: "valid_datetime s" by (simp add: valid_datetime_def s_def)
  have az: "arg_or_zero sa ''hour'' = h'" "arg_or_zero sa ''minute'' = m'"
    "arg_or_zero sa ''second'' = s'" "arg_or_zero sa ''microsecond'' = u'"
    by (simp_all add: arg_or_zero_def mh mi ms mu h'_def m'_def s'_def u'_def u0_def u_def)
  have la: "list_all (\<lambda>kv. fst kv \<in> set datetime_fields) sa"
    by (rule keys_from_map_of) (rule keys)
  have kw: "datetime_kw sa = Inr s"
    using vd vts' by (simp add: datetime_kw_def la my mm md az datetime_new_def s_def)
  have nomilli: "\<not> has_key sa ''millisecond''"
  proof
    assume "has_key sa ''millisecond''"
    then have "''millisecond'' \<in> set datetime_fields" unfolding has_key_def by (rule keys)
    then show False by (simp add: datetime_fields_def)
  qed
  define td where
    "td = (if S then timedelta_seconds 1 else if M then timedelta_minutes 1
           else if H then timedelta_hours 1 else timedelta_days 1)"
  have res: "get_time_resolution sa = Some td"
    using nomilli by (simp add: get_time_resolution_def has_key_def td_def ms mi mh md)
  have td: "0 < td" "td \<le> 86400000000"
    by (simp_all add: td_def timedelta_seconds_def timedelta_minutes_def timedelta_hours_def
        timedelta_days_def)
  have date: "dt_year t = dt_year s" "dt_month t = dt_month s" "dt_day t = dt_day s"
    by (simp_all add: s_def)
  from y9 have y: "dt_year s < 9999" by (simp add: s_def)
  from vt have b: "0 \<le> dt_hour t" "0 \<le> dt_minute t" "dt_minute t < 60"
    "0 \<le> dt_second t" "dt_second t < 60" by (simp_all add: valid_time_def)
  have lohi: "us_of_day s \<le> us_of_day t \<and> us_of_day t < us_of_day s + td"
  proof (cases S)
    case True
    with c2 c1 have "M" "H" by simp_all
    with True us show ?thesis
      by (cases MS) (simp_all add: us_of_day_def s_def h'_def m'_def s'_def u'_def td_def
          timedelta_seconds_def u_def)
  next
    case nS: False
    with c3 have nMS: "\<not> MS" by blast
    show ?thesis
    proof (cases M)
      case True
      with c1 have "H" by simp
      with True nS nMS us b show ?thesis
        by (simp add: us_of_day_def s_def h'_def m'_def s'_def u'_def td_def
            timedelta_minutes_def u_def)
    next
      case nM: False
      show ?thesis
      proof (cases H)
        case True
        with nM nS nMS us b show ?thesis
          by (simp add: us_of_day_def s_def h'_def m'_def s'_def u'_def td_def
              timedelta_hours_def u_def)
      next
        case False
        with nM nS nMS us_of_day_range [OF vt] show ?thesis
          by (simp add: s_def h'_def m'_def s'_def u'_def td_def timedelta_days_def
              us_of_day_def)
      qed
    qed
  qed
  from datetime_add_contains [OF vs v date y td] lohi
  obtain e where "datetime_add s td = Inr e" "dt_le s t" "dt_less t e" "\<not> dt_less e s"
    by blast
  with kw res show ?thesis by blast
qed

subsection \<open>The round trip\<close>

lemma list_ex_eq: "list_ex (\<lambda>p. p = x) xs \<longleftrightarrow> x \<in> set xs"
  by (auto simp: list_ex_iff)

lemma list_all_neq: "list_all (\<lambda>p. p \<noteq> x) xs \<longleftrightarrow> x \<notin> set xs"
  by (auto simp: list_all_iff)

lemma list_ex_eq2: "list_ex (\<lambda>p. p = x \<or> p = y) xs \<longleftrightarrow> x \<in> set xs \<or> y \<in> set xs"
  by (auto simp: list_ex_iff)

lemma Dataset_new_fields:
  assumes "Dataset_new tab0 oid toks h nm None c = (tab, self)"
  shows "tab = AList.update ''name'' (Text (case nm of None \<Rightarrow> oid | Some n \<Rightarrow> n)) tab0"
    and "ds_name self = (case nm of None \<Rightarrow> oid | Some n \<Rightarrow> n)"
    and "files self = toks" and "files_placeholders self = placeholders_of toks"
    and "single_file self = (placeholders_of toks = [] \<and> Star \<notin> set toks)"
    and "continuous self = c" and "time_coverages_cache self = []"
    and "time_coverage self =
           (if placeholders_of toks = [] \<and> Star \<notin> set toks
            then Explicit (datetime_min, datetime_max) else Method Filename)"
  using assms
  by (auto simp: Dataset_new_def set_name_def set_files_def Let_def split: option.splits)

text \<open>
  Claim C1, as far as it holds. Take a template of plain characters and placeholders of
  the start that has \<open>{year}\<close> or \<open>{year2}\<close>, a day (\<open>{month}\<close> and \<open>{day}\<close>, or \<open>{doy}\<close>)
  and, with each unit of the time of day, every coarser one; a dataset of that template
  that is continuous and reads the coverage from the file names; and a valid timestamp
  \<open>T\<close> with a year from 1000 to 9998, and from 1965 to 2064 when the template has
  \<open>{year2}\<close>. Then \<open>generate_filename\<close> returns a file name for \<open>T\<close>, and
  \<open>retrieve_time_coverage\<close> returns for that name an interval \<open>[s, e)\<close> with
  \<open>s \<le> T < e\<close>.
\<close>

theorem roundtrip_naming:
  assumes tb: "standard_table tab0"
      and new: "Dataset_new tab0 oid toks h nm None True = (tab, self)"
      and tmpl: "roundtrip_template toks"
      and tm: "roundtrip_time toks T"
  shows "\<exists>f s e. generate_filename self toks T None = Inr f \<and>
           map_sum id fst (retrieve_time_coverage tab self f None) = Inr (s, e) \<and>
           dt_le s T \<and> dt_less T e"
proof -
  define phs where "phs = placeholders_of toks"
  define n where "n = (case nm of None \<Rightarrow> oid | Some x \<Rightarrow> x)"
  define kw where "kw = format_args n T T"
  define g where "g = (\<lambda>p. case map_of kw p of None \<Rightarrow> [] | Some s \<Rightarrow> s)"
  from tmpl have pt: "list_all plain_token toks"
    and yr: "''year'' \<in> set phs \<or> ''year2'' \<in> set phs"
    and dy: "''doy'' \<in> set phs \<or> ''month'' \<in> set phs \<and> ''day'' \<in> set phs"
    and cH: "''minute'' \<in> set phs \<Longrightarrow> ''hour'' \<in> set phs"
    and cM: "''second'' \<in> set phs \<Longrightarrow> ''minute'' \<in> set phs"
    and cS: "''millisecond'' \<in> set phs \<Longrightarrow> ''second'' \<in> set phs"
    unfolding roundtrip_template_def list_ex_eq list_ex_eq2 list_all_neq phs_def by blast+
  from tm have v: "valid_datetime T" and y1: "1000 \<le> dt_year T" and y9: "dt_year T < 9999"
    and y2: "''year2'' \<in> set phs \<Longrightarrow> 1965 \<le> dt_year T \<and> dt_year T \<le> 2064"
    unfolding roundtrip_time_def list_all_neq phs_def by blast+
  note pl = plain_tokens [OF pt]
  from pl(1) have sub: "set phs \<subseteq> set start_placeholders" by (simp add: phs_def)
  note flds = Dataset_new_fields [OF new, folded phs_def n_def]
  from yr have ne: "phs \<noteq> []" by auto
  have ptext: "\<exists>s w. map_of kw p = Some s \<and> map_of tab p = Some (Digits w) \<and>
                    length s = w \<and> list_all is_digit s \<and> py_int s = Inr (placeholder_value T p)"
    if "p \<in> set phs" for p
  proof -
    from that sub have p: "p \<in> set start_placeholders" by blast
    have "map_of tab p = map_of placeholder p"
      unfolding flds(1) by (rule standard_table_entry [OF tb p])
    with placeholder_text [OF v y1 p, of n T] show ?thesis by (simp add: kw_def)
  qed
  have "\<exists>r f. re_compile tab toks = Inr r \<and> fill_template kw toks = Inr f \<and>
           (\<forall>rest. re_match r (f @ rest) =
              Some (f, map (\<lambda>p. case map_of kw p of None \<Rightarrow> [] | Some s \<Rightarrow> s)
                         (placeholders_of toks)))"
  proof (rule compile_fill_match)
    fix p assume "PH p \<in> set toks"
    then have "p \<in> set phs" unfolding phs_def by (rule pl(4))
    from ptext [OF this]
    show "\<exists>s w. map_of kw p = Some s \<and> map_of tab p = Some (Digits w) \<and>
                 length s = w \<and> list_all is_digit s" by blast
  next
    fix c assume "Lit c \<in> set toks"
    then show "c \<noteq> CHR ''*''" by (rule pl(3))
  next
    show "Star \<notin> set toks" by (rule pl(2))
  qed
  then obtain r f where r: "re_compile tab toks = Inr r" and f: "fill_template kw toks = Inr f"
    and m: "re_match r (f @ []) = Some (f, map g phs)"
    unfolding g_def phs_def by blast
  from m have "re_match r f = Some (f, map g phs)" by simp
  then have se: "re_search r f = Some (f, map g phs)" by (rule re_search_first)
  have two: "\<exists>x y zs. phs = x # y # zs"
  proof -
    from yr obtain a where a: "a \<in> set phs" "a = ''year'' \<or> a = ''year2''" by blast
    from dy obtain b where b: "b \<in> set phs" "b = ''doy'' \<or> b = ''day''" by blast
    from a(2) b(2) have "a \<noteq> b" by auto
    with a(1) b(1) show ?thesis by (rule two_placeholders)
  qed
  then obtain x y zs where "phs = x # y # zs" by blast
  then have fa: "findall_first r f = Some (VTuple (map g phs))"
    by (simp add: findall_first_def se)
  have gen: "generate_filename self toks T None = Inr f"
    by (simp add: generate_filename_def flds(2) f [unfolded kw_def])
  have vals: "py_int (g p) = Inr (placeholder_value T p)" if "p \<in> set phs" for p
    using ptext [OF that] by (auto simp: g_def)
  from start_args_of_generated [OF sub vals y2 yr dy v]
  obtain sa where
    s1: "create_date_from_placeholders phs (VTuple (map g phs)) None (Some ''end_'') None =
           Inr sa"
    and s2: "create_date_from_placeholders phs (VTuple (map g phs)) (Some ''end_'') None
               (Some sa) = Inr sa"
    and my: "map_of sa ''year'' = Some (dt_year T)"
    and mm: "map_of sa ''month'' = Some (dt_month T)"
    and md: "map_of sa ''day'' = Some (dt_day T)"
    and mh: "map_of sa ''hour'' = (if ''hour'' \<in> set phs then Some (dt_hour T) else None)"
    and mi: "map_of sa ''minute'' = (if ''minute'' \<in> set phs then Some (dt_minute T) else None)"
    and ms: "map_of sa ''second'' = (if ''second'' \<in> set phs then Some (dt_second T) else None)"
    and mu: "map_of sa ''microsecond'' =
               (if ''millisecond'' \<in> set phs then Some (dt_microsecond T div 1000 * 1000)
                else None)"
    and keys: "\<forall>k. map_of sa k \<noteq> None \<longrightarrow> k \<in> set datetime_fields"
    by blast
  from keys have keys': "\<And>k. map_of sa k \<noteq> None \<Longrightarrow> k \<in> set datetime_fields" by blast
  from interval_of_start_args [OF v y9 my mm md mh mi ms mu keys' cH cM cS]
  obtain s td e where kws: "datetime_kw sa = Inr s"
    and res: "get_time_resolution sa = Some td"
    and add: "datetime_add s td = Inr e"
    and inside: "dt_le s T" "dt_less T e" and ord: "\<not> dt_less e s"
    by blast
  have sf: "\<not> single_file self" using ne by (simp add: flds(5))
  have tc: "time_coverage_from_filename tab self f = Inr (s, e)"
    unfolding time_coverage_from_filename_def
    by (simp add: sf flds(3,4,6) r fa s1 s2 kws res add ord)
  have mth: "time_coverage self = Method Filename" using ne by (simp add: flds(8))
  have "map_sum id fst (retrieve_time_coverage tab self f None) = Inr (s, e)"
    unfolding retrieve_time_coverage_def by (simp add: flds(7) mth tc)
  with gen inside show ?thesis by blast
qed

theorem roundtrip_naming_witness:
  "standard_table placeholder \<and>
   roundtrip_template (template_of ''{year}/{month}/{day}/{hour}{minute}{second}.nc'') \<and>
   roundtrip_time (template_of ''{year}/{month}/{day}/{hour}{minute}{second}.nc'')
     \<lparr>dt_year = 2017, dt_month = 11, dt_day = 12, dt_hour = 10, dt_minute = 11,
      dt_second = 12, dt_microsecond = 123456\<rparr> \<and>
   (\<exists>f s e.
      generate_filename (snd (alone ''{year}/{month}/{day}/{hour}{minute}{second}.nc'' True))
        (template_of ''{year}/{month}/{day}/{hour}{minute}{second}.nc'')
        \<lparr>dt_year = 2017, dt_month = 11, dt_day = 12, dt_hour = 10, dt_minute = 11,
         dt_second = 12, dt_microsecond = 123456\<rparr> None = Inr f \<and>
      resolve_alone ''{year}/{month}/{day}/{hour}{minute}{second}.nc'' True f = Inr (s, e) \<and>
      dt_le s \<lparr>dt_year = 2017, dt_month = 11, dt_day = 12, dt_hour = 10, dt_minute = 11,
               dt_second = 12, dt_microsecond = 123456\<rparr> \<and>
      dt_less \<lparr>dt_year = 2017, dt_month = 11, dt_day = 12, dt_hour = 10, dt_minute = 11,
               dt_second = 12, dt_microsecond = 123456\<rparr> e)"
proof -
  let ?t = "''{year}/{month}/{day}/{hour}{minute}{second}.nc''"
  let ?T = "\<lparr>dt_year = 2017, dt_month = 11, dt_day = 12, dt_hour = 10, dt_minute = 11,
             dt_second = 12, dt_microsecond = 123456\<rparr>"
  have a: "standard_table placeholder" by code_simp
  have b: "roundtrip_template (template_of ?t)" by code_simp
  have c: "roundtrip_time (template_of ?t) ?T" by code_simp
  have d: "Dataset_new placeholder ''140000000'' (template_of ?t) (\<lambda>f. Inl ValueError)
             None None True = (fst (alone ?t True), snd (alone ?t True))"
    by (simp add: alone_def)
  note r = roundtrip_naming [OF a d b c]
  show ?thesis
    apply (intro conjI)
       apply (rule a)
      apply (rule b)
     apply (rule c)
    unfolding resolve_alone_def
    apply (rule r)
    done
qed

text \<open>
  The intervals of the round trip on examples: a file of the second, and a file of the
  millisecond, whose interval is one second long.
\<close>

lemma roundtrip_of_second:
  "generate_filename (snd (alone ''{year}/{month}/{day}/{hour}{minute}{second}.nc'' True))
     (template_of ''{year}/{month}/{day}/{hour}{minute}{second}.nc'')
     \<lparr>dt_year = 2017, dt_month = 11, dt_day = 12, dt_hour = 10, dt_minute = 11,
      dt_second = 12, dt_microsecond = 123456\<rparr> None = Inr ''2017/11/12/101112.nc'' \<and>
   resolve_alone ''{year}/{month}/{day}/{hour}{minute}{second}.nc'' True ''2017/11/12/101112.nc'' =
     Inr (\<lparr>dt_year = 2017, dt_month = 11, dt_day = 12, dt_hour = 10, dt_minute = 11,
           dt_second = 12, dt_microsecond = 0\<rparr>,
          \<lparr>dt_year = 2017, dt_month = 11, dt_day = 12, dt_hour = 10, dt_minute = 11,
           dt_second = 13, dt_microsecond = 0\<rparr>)"
  by code_simp

text \<open>
  The claim as it is stated, for every timestamp and every template, does not hold. A
  year before 1965 is read back from \<open>{year2}\<close> as a year of this century: the file name
  of 1 January 1950 resolves to 1 January 2050.
\<close>

theorem year2_roundtrip_counterexample:
  "valid_datetime (midnight (1950, 1, 1)) \<and>
   generate_filename (snd (alone ''{year2}/{month}/{day}.dat'' True))
     (template_of ''{year2}/{month}/{day}.dat'') (midnight (1950, 1, 1)) None =
     Inr ''50/01/01.dat'' \<and>
   resolve_alone ''{year2}/{month}/{day}.dat'' True ''50/01/01.dat'' =
     Inr (midnight (2050, 1, 1), midnight (2050, 1, 2)) \<and>
   \<not> dt_le (midnight (2050, 1, 1)) (midnight (1950, 1, 1))"
  by code_simp

text \<open>
  The other conditions on the template are needed as well: with \<open>{minute}\<close> and no
  \<open>{hour}\<close> the interval is a minute of the first hour of the day, and without a day
  there is no interval.
\<close>

lemma minute_without_hour:
  "generate_filename (snd (alone ''{year}{month}{day}_{minute}.nc'' True))
     (template_of ''{year}{month}{day}_{minute}.nc'')
     \<lparr>dt_year = 2017, dt_month = 11, dt_day = 12, dt_hour = 10, dt_minute = 11,
      dt_second = 0, dt_microsecond = 0\<rparr> None = Inr ''20171112_11.nc'' \<and>
   resolve_alone ''{year}{month}{day}_{minute}.nc'' True ''20171112_11.nc'' =
     Inr (\<lparr>dt_year = 2017, dt_month = 11, dt_day = 12, dt_hour = 0, dt_minute = 11,
           dt_second = 0, dt_microsecond = 0\<rparr>,
          \<lparr>dt_year = 2017, dt_month = 11, dt_day = 12, dt_hour = 0, dt_minute = 12,
           dt_second = 0, dt_microsecond = 0\<rparr>)"
  by code_simp

lemma month_without_day:
  "generate_filename (snd (alone ''{year}/{month}.nc'' True)) (template_of ''{year}/{month}.nc'')
     (midnight (2017, 11, 12)) None = Inr ''2017/11.nc'' \<and>
   resolve_alone ''{year}/{month}.nc'' True ''2017/11.nc'' = Inl TypeError"
  by code_simp

end
